theory Spec2Isabelle
  imports Complex_Main "HOL-Library.AList"
begin

section \<open>Python values, faults and string primitives\<close>

text \<open>
  Exceptions of the Python sources are values of type \<open>fault\<close>; a computation that may
  raise has a result of type \<open>fault + 'a\<close>, with \<open>Inl\<close> for the raised exception.
  \<open>TimeoutError\<close> is Playwright's and \<open>ValidationError\<close> is what a pydantic class raises.
  Strings are lists of 8-bit characters standing for the code points U+0000 to U+00FF.
\<close>

datatype fault = AttributeError | IndexError | ValueError | TypeError | TimeoutError
  | ValidationError

text \<open>A line written through \<^verbatim>\<open>logging\<close>: its level, its message and the exception it reports.\<close>

datatype log_entry = Log_error string fault | Log_warning string fault

text \<open>\<^verbatim>\<open>str.isspace\<close> on the code points below 256.\<close>

definition py_isspace :: "char \<Rightarrow> bool" where
  "py_isspace c \<longleftrightarrow> c \<in> {CHR 0x09, CHR 0x0A, CHR 0x0B, CHR 0x0C, CHR 0x0D,
     CHR 0x1C, CHR 0x1D, CHR 0x1E, CHR 0x1F, CHR 0x20, CHR 0x85, CHR 0xA0}"

text \<open>\<^verbatim>\<open>s.strip()\<close>: leading and trailing whitespace removed.\<close>

definition py_strip :: "string \<Rightarrow> string" where
  "py_strip s = rev (dropWhile py_isspace (rev (dropWhile py_isspace s)))"

text \<open>The decimal digits \<^verbatim>\<open>0\<close> to \<^verbatim>\<open>9\<close>, the only ones \<^verbatim>\<open>int\<close> and \<^verbatim>\<open>float\<close> read below U+0100.\<close>

definition is_decimal :: "char \<Rightarrow> bool" where
  "is_decimal c \<longleftrightarrow> c \<in> set ''0123456789''"

definition digit_val :: "char \<Rightarrow> nat" where
  "digit_val c = of_char c - 48"

text \<open>
  The digits of \<^verbatim>\<open>int(s)\<close>: a non-empty run of decimal digits in which single underscores
  may separate two digits. The accumulator is the value read so far.
\<close>

fun int_digits :: "nat \<Rightarrow> string \<Rightarrow> fault + nat" where
  "int_digits acc [] = Inr acc"
| "int_digits acc [c] =
     (if is_decimal c then Inr (10 * acc + digit_val c) else Inl ValueError)"
| "int_digits acc (c # d # cs) =
     (if is_decimal c then int_digits (10 * acc + digit_val c) (d # cs)
      else if c = CHR ''_'' \<and> is_decimal d then int_digits acc (d # cs)
      else Inl ValueError)"

text \<open>
  The whitespace that \<^verbatim>\<open>int\<close> drops around a number, below U+0100: the ASCII blanks
  and, of the others, U+0085 and U+00A0. U+001C to U+001F are whitespace for
  \<^verbatim>\<open>str.strip\<close> but not here.
\<close>

definition int_isspace :: "char \<Rightarrow> bool" where
  "int_isspace c \<longleftrightarrow> c \<in> {CHR 0x09, CHR 0x0A, CHR 0x0B, CHR 0x0C, CHR 0x0D, CHR 0x20,
     CHR 0x85, CHR 0xA0}"

text \<open>
  \<^verbatim>\<open>int(s)\<close> for a string: surrounding whitespace is dropped, one sign is allowed, and the
  rest must start with a digit. Anything else raises \<^verbatim>\<open>ValueError\<close>, and so does a
  number of more than 4300 digits, the interpreter's default limit.
\<close>

definition py_int :: "string \<Rightarrow> fault + int" where
  "py_int s =
     (let t = rev (dropWhile int_isspace (rev (dropWhile int_isspace s)));
          neg = (t \<noteq> [] \<and> hd t = CHR ''-'');
          body = (if t \<noteq> [] \<and> (hd t = CHR ''-'' \<or> hd t = CHR ''+'') then tl t else t)
      in if body = [] \<or> \<not> is_decimal (hd body) then Inl ValueError
         else if length (filter is_decimal body) > 4300 then Inl ValueError
         else (case int_digits 0 body of
                 Inl e \<Rightarrow> Inl e
               | Inr n \<Rightarrow> Inr (if neg then - int n else int n)))"

text \<open>\<^verbatim>\<open>xs[i]\<close> for a non-negative index: out of range raises \<^verbatim>\<open>IndexError\<close>.\<close>

definition py_index :: "'a list \<Rightarrow> nat \<Rightarrow> fault + 'a" where
  "py_index xs i = (if i < length xs then Inr (xs ! i) else Inl IndexError)"

section \<open>OP.GG parser: win/loss pair\<close>

text \<open>
  \<^verbatim>\<open>OPGGParser._parse_win_loss\<close>. The caller passes the result of an XPath query, or
  \<^verbatim>\<open>[None]\<close> when the query found nothing, so an entry is a string or \<^verbatim>\<open>None\<close>. The
  \<^verbatim>\<open>except\<close> clause catches \<^verbatim>\<open>ValueError\<close> and \<^verbatim>\<open>IndexError\<close> only; any other
  fault of the body would leave the function.
\<close>

definition int_if_truthy :: "string option \<Rightarrow> fault + int option" where
  "int_if_truthy v =
     (case v of
        None \<Rightarrow> Inr None
      | Some s \<Rightarrow> if s = [] then Inr None
                  else (case py_int s of Inl e \<Rightarrow> Inl e | Inr n \<Rightarrow> Inr (Some n)))"

definition parse_win_loss_body :: "string option list \<Rightarrow> fault + (int option \<times> int option)" where
  "parse_win_loss_body wl_data =
     (case py_index wl_data 0 of
        Inl e \<Rightarrow> Inl e
      | Inr wins_str \<Rightarrow>
          (case py_index wl_data 2 of
             Inl e \<Rightarrow> Inl e
           | Inr losses_str \<Rightarrow>
               (case int_if_truthy wins_str of
                  Inl e \<Rightarrow> Inl e
                | Inr w \<Rightarrow>
                    (case int_if_truthy losses_str of
                       Inl e \<Rightarrow> Inl e
                     | Inr l \<Rightarrow> Inr (w, l)))))"

definition parse_win_loss :: "string option list \<Rightarrow> fault + (int option \<times> int option)" where
  "parse_win_loss wl_data =
     (if wl_data = [] \<or> length wl_data < 2 then Inr (None, None)
      else (case parse_win_loss_body wl_data of
              Inl e \<Rightarrow> if e = ValueError \<or> e = IndexError then Inr (None, None) else Inl e
            | Inr r \<Rightarrow> Inr r))"

section \<open>The page as the parsers read it\<close>

text \<open>
  An element handle of the browser. \<open>matches\<close> lists, for a selector, the elements
  below this one that the selector designates, in document order;
  \<^verbatim>\<open>query_selector\<close> returns the first of them and \<^verbatim>\<open>query_selector_all\<close> all of
  them. \<open>text_content\<close> is what \<^verbatim>\<open>text_content()\<close> returns (a string or \<^verbatim>\<open>None\<close>) and
  \<open>attrs\<close> holds the attributes.
\<close>

datatype element =
  Element (matches: "(string \<times> element list) list") (text_content: "string option")
    (attrs: "(string \<times> string) list")

definition query_selector_all :: "element \<Rightarrow> string \<Rightarrow> element list" where
  "query_selector_all el sel = (case map_of (matches el) sel of None \<Rightarrow> [] | Some xs \<Rightarrow> xs)"

definition query_selector :: "element \<Rightarrow> string \<Rightarrow> element option" where
  "query_selector el sel = (case query_selector_all el sel of [] \<Rightarrow> None | x # _ \<Rightarrow> Some x)"

definition get_attribute :: "element \<Rightarrow> string \<Rightarrow> string option" where
  "get_attribute el name = map_of (attrs el) name"

section \<open>Browser helper: text and number extraction\<close>

text \<open>
  \<^verbatim>\<open>PlaywrightBrowser.extract_text\<close>. \<open>page\<close> is \<^verbatim>\<open>self.page\<close>, which is \<^verbatim>\<open>None\<close> until
  a page is opened. \<open>locate\<close> is the first statement of the \<^verbatim>\<open>try\<close> block: the query
  is scoped to \<open>parent\<close> when one is given and to the page otherwise.
\<close>

definition locate :: "element option \<Rightarrow> string \<Rightarrow> element option \<Rightarrow> fault + element option" where
  "locate page selector parent =
     (case parent of
        Some p \<Rightarrow> Inr (query_selector p selector)
      | None \<Rightarrow> (case page of
                   None \<Rightarrow> Inl AttributeError
                 | Some pg \<Rightarrow> Inr (query_selector pg selector)))"

definition extract_text_body :: "element option \<Rightarrow> string \<Rightarrow> element option \<Rightarrow> fault + string option" where
  "extract_text_body page selector parent =
     (case locate page selector parent of
        Inl e \<Rightarrow> Inl e
      | Inr None \<Rightarrow> Inr None
      | Inr (Some el) \<Rightarrow> (case text_content el of
                           None \<Rightarrow> Inl AttributeError
                         | Some t \<Rightarrow> Inr (Some (py_strip t))))"

definition extract_text :: "element option \<Rightarrow> string \<Rightarrow> element option \<Rightarrow> string option \<times> log_entry list" where
  "extract_text page selector parent =
     (case extract_text_body page selector parent of
        Inl e \<Rightarrow> (None, [Log_error ''Error extracting text'' e])
      | Inr v \<Rightarrow> (v, []))"

text \<open>\<^verbatim>\<open>str.isdigit\<close> below U+0100: the decimal digits and the superscripts 1, 2 and 3.\<close>

definition py_isdigit :: "char \<Rightarrow> bool" where
  "py_isdigit c \<longleftrightarrow> is_decimal c \<or> c \<in> {CHR 0xB2, CHR 0xB3, CHR 0xB9}"

text \<open>\<^verbatim>\<open>''.join(c for c in text if c.isdigit() or c in '.-')\<close>\<close>

definition cleaned :: "string \<Rightarrow> string" where
  "cleaned txt = filter (\<lambda>c. py_isdigit c \<or> c \<in> set ''.-'') txt"

definition digits_nat :: "string \<Rightarrow> nat" where
  "digits_nat ds = foldl (\<lambda>a c. 10 * a + digit_val c) 0 ds"

text \<open>
  \<^verbatim>\<open>float(cleaned)\<close> on a string made of digits, \<^verbatim>\<open>.\<close> and \<^verbatim>\<open>-\<close>, which is all that
  \<open>cleaned\<close> lets through: an optional leading minus, then decimal digits with at most
  one point and at least one digit; everything else raises \<^verbatim>\<open>ValueError\<close>. The result
  is the exact decimal value; the rounding to a binary64 float is not modelled.
\<close>

definition float_cleaned :: "string \<Rightarrow> fault + rat" where
  "float_cleaned s =
     (let neg = (s \<noteq> [] \<and> hd s = CHR ''-'');
          body = (if neg then tl s else s);
          ip = takeWhile is_decimal body;
          rest = dropWhile is_decimal body;
          fp = (if rest \<noteq> [] \<and> hd rest = CHR ''.'' then tl rest else rest)
      in if (ip = [] \<and> fp = []) \<or> \<not> list_all is_decimal fp then Inl ValueError
         else Inr ((if neg then - 1 else 1) *
                   (of_nat (digits_nat ip) + of_nat (digits_nat fp) / 10 ^ length fp)))"

text \<open>\<^verbatim>\<open>PlaywrightBrowser.extract_number\<close>: the statements of its \<^verbatim>\<open>try\<close> block after the text is read.\<close>

definition number_of_text :: "string option \<Rightarrow> fault + rat option" where
  "number_of_text txt =
     (case txt of
        None \<Rightarrow> Inr None
      | Some t \<Rightarrow>
          if t = [] then Inr None
          else if cleaned t = [] then Inr None
          else (case float_cleaned (cleaned t) of Inl e \<Rightarrow> Inl e | Inr x \<Rightarrow> Inr (Some x)))"

definition extract_number :: "element option \<Rightarrow> string \<Rightarrow> element option \<Rightarrow> rat option \<times> log_entry list" where
  "extract_number page selector parent =
     (case extract_text page selector parent of
        (txt, l) \<Rightarrow>
          (case number_of_text txt of
             Inl e \<Rightarrow> (None, l @ [Log_error ''Error extracting number'' e])
           | Inr v \<Rightarrow> (v, l)))"

text \<open>The text content of the element a selector designates, when both exist.\<close>

definition element_text :: "element option \<Rightarrow> string \<Rightarrow> element option \<Rightarrow> string option" where
  "element_text page selector parent =
     (case locate page selector parent of
        Inl e \<Rightarrow> None
      | Inr None \<Rightarrow> None
      | Inr (Some el) \<Rightarrow> text_content el)"

section \<open>Field mapper\<close>

text \<open>
  The values a field can hold, and a field spec \<^verbatim>\<open>(selector, value_type, transform)\<close>. A
  transform is any callable: it returns a value or raises.
\<close>

datatype pyval = VNone | VStr string | VNum rat

type_synonym transform = "pyval \<Rightarrow> fault + pyval"

type_synonym field_spec = "string option \<times> string option \<times> transform option"

definition of_text :: "string option \<Rightarrow> pyval" where
  "of_text v = (case v of None \<Rightarrow> VNone | Some s \<Rightarrow> VStr s)"

definition of_number :: "rat option \<Rightarrow> pyval" where
  "of_number v = (case v of None \<Rightarrow> VNone | Some x \<Rightarrow> VNum x)"

text \<open>Line 30, \<^verbatim>\<open>transform(None) if transform else None\<close>: the raw value of a field without a selector.\<close>

definition unlocated :: "transform option \<Rightarrow> (fault + pyval) \<times> log_entry list" where
  "unlocated transform = (case transform of None \<Rightarrow> (Inr VNone, []) | Some t \<Rightarrow> (t VNone, []))"

text \<open>
  Lines 30 to 33 of \<^verbatim>\<open>parse_element\<close>: the raw value of one field. \<^verbatim>\<open>not selector\<close> holds
  for \<^verbatim>\<open>None\<close> and for the empty string.
\<close>

definition resolve_field :: "element option \<Rightarrow> element \<Rightarrow> field_spec \<Rightarrow> (fault + pyval) \<times> log_entry list" where
  "resolve_field page el spec =
     (case spec of (selector, value_type, transform) \<Rightarrow>
        (case selector of
           None \<Rightarrow> unlocated transform
         | Some sel \<Rightarrow>
             if sel = [] then unlocated transform
             else if value_type = Some ''text'' then
               (case extract_text page sel (Some el) of (v, l) \<Rightarrow> (Inr (of_text v), l))
             else if value_type = Some ''number'' then
               (case extract_number page sel (Some el) of (v, l) \<Rightarrow> (Inr (of_number v), l))
             else (Inl ValueError, [])))"

text \<open>Lines 30 to 35: the raw value, then \<^verbatim>\<open>if transform: value = transform(value)\<close>.\<close>

definition field_value :: "element option \<Rightarrow> element \<Rightarrow> field_spec \<Rightarrow> (fault + pyval) \<times> log_entry list" where
  "field_value page el spec =
     (case resolve_field page el spec of
        (Inl e, l) \<Rightarrow> (Inl e, l)
      | (Inr v, l) \<Rightarrow>
          (case snd (snd spec) of
             None \<Rightarrow> (Inr v, l)
           | Some t \<Rightarrow> (t v, l)))"

text \<open>
  The loop over \<^verbatim>\<open>fields.items()\<close>, in the dictionary's order; \<open>vals\<close> is the dictionary
  \<^verbatim>\<open>values\<close>. The first fault ends the loop.
\<close>

fun parse_fields :: "element option \<Rightarrow> element \<Rightarrow> (string \<times> field_spec) list \<Rightarrow>
    (string \<times> pyval) list \<Rightarrow> (fault + (string \<times> pyval) list) \<times> log_entry list" where
  "parse_fields page el [] vals = (Inr vals, [])"
| "parse_fields page el ((name, spec) # fs) vals =
     (case field_value page el spec of
        (Inl e, l) \<Rightarrow> (Inl e, l)
      | (Inr v, l) \<Rightarrow>
          (case parse_fields page el fs (AList.update name v vals) of
             (r, l') \<Rightarrow> (r, l @ l')))"

text \<open>
  \<^verbatim>\<open>LolalyticsParser.parse_element\<close>. \<open>schema_cls\<close> is the record class: called with the
  values it returns a record or raises (a pydantic model validates its arguments).
  \<^verbatim>\<open>except Exception\<close> catches every fault of the body.
\<close>

definition parse_element :: "element option \<Rightarrow> element \<Rightarrow> ((string \<times> pyval) list \<Rightarrow> fault + 'r) \<Rightarrow>
    (string \<times> field_spec) list \<Rightarrow> 'r option \<times> log_entry list" where
  "parse_element page el schema_cls fields =
     (case parse_fields page el fields [] of
        (Inl e, l) \<Rightarrow> (None, l @ [Log_warning ''Failed to parse element'' e])
      | (Inr vals, l) \<Rightarrow>
          (case schema_cls vals of
             Inl e \<Rightarrow> (None, l @ [Log_warning ''Failed to parse element'' e])
           | Inr r \<Rightarrow> (Some r, l)))"

section \<open>Paginated section extractor\<close>

text \<open>\<^verbatim>\<open>s.split(sep)\<close> for a separator of one character.\<close>

fun split_on :: "char \<Rightarrow> string \<Rightarrow> string list" where
  "split_on sep [] = [[]]"
| "split_on sep (c # cs) =
     (if c = sep then [] # split_on sep cs
      else (case split_on sep cs of [] \<Rightarrow> [[c]] | p # ps \<Rightarrow> (c # p) # ps))"

text \<open>
  \<^verbatim>\<open>s.capitalize()\<close>: the first character in upper case, the others in lower case.
  Only the ASCII letters have a case here; other characters are left as they are.
\<close>

definition ascii_upper :: "char \<Rightarrow> char" where
  "ascii_upper c =
     (case map_of (zip ''abcdefghijklmnopqrstuvwxyz'' ''ABCDEFGHIJKLMNOPQRSTUVWXYZ'') c of
        None \<Rightarrow> c | Some u \<Rightarrow> u)"

definition ascii_lower :: "char \<Rightarrow> char" where
  "ascii_lower c =
     (case map_of (zip ''ABCDEFGHIJKLMNOPQRSTUVWXYZ'' ''abcdefghijklmnopqrstuvwxyz'') c of
        None \<Rightarrow> c | Some l \<Rightarrow> l)"

definition capitalize :: "string \<Rightarrow> string" where
  "capitalize s = (case s of [] \<Rightarrow> [] | c # cs \<Rightarrow> ascii_upper c # map ascii_lower cs)"

text \<open>\<^verbatim>\<open>link.split("/")[n].capitalize()\<close>, where \<open>link\<close> may be \<^verbatim>\<open>None\<close>.\<close>

definition link_part :: "string option \<Rightarrow> nat \<Rightarrow> fault + string option" where
  "link_part link n =
     (case link of
        None \<Rightarrow> Inl AttributeError
      | Some l \<Rightarrow> (case py_index (split_on CHR ''/'' l) n of
                    Inl e \<Rightarrow> Inl e
                  | Inr p \<Rightarrow> Inr (Some (capitalize p))))"

text \<open>
  Lines 135 to 138 of \<^verbatim>\<open>parse_common_section\<close>: the identity key \<^verbatim>\<open>champ\<close> of the card \<open>crd\<close>.
  A card without an anchor raises \<^verbatim>\<open>AttributeError\<close> (\<^verbatim>\<open>get_attribute\<close> of \<^verbatim>\<open>None\<close>).
  For a flag other than the two named ones the key stays \<^verbatim>\<open>None\<close>.
\<close>

definition card_key :: "string \<Rightarrow> element \<Rightarrow> fault + string option" where
  "card_key flag crd =
     (case query_selector crd ''a'' of
        None \<Rightarrow> Inl AttributeError
      | Some a \<Rightarrow>
          (let link = get_attribute a ''href''
           in if flag = ''teammates'' then link_part link 2
              else if flag = ''matchup'' then link_part link 4
              else Inr None))"

text \<open>
  The field spec \<^verbatim>\<open>(None, None, lambda _: champ)\<close> of line 143. The lambda is called
  inside the call of line 144, before \<^verbatim>\<open>champ\<close> is assigned again, so it returns the key
  of the card being mapped.
\<close>

definition champion_field :: "string option \<Rightarrow> field_spec" where
  "champion_field champ = (None, None, Some (\<lambda>_. Inr (of_text champ)))"

text \<open>
  What one pass of the \<^verbatim>\<open>while\<close> loop sees of a lane: the cards that the query of line
  132 returns after the scroll of line 131, and the three numbers that the check of line
  147 reads, in pixels.
\<close>

record observation =
  cards :: "element list"
  scrollLeft :: int
  clientWidth :: int
  scrollWidth :: int

text \<open>Line 147: \<^verbatim>\<open>el.scrollLeft + el.clientWidth >= el.scrollWidth - 5\<close>.\<close>

definition is_exhausted :: "observation \<Rightarrow> bool" where
  "is_exhausted ob \<longleftrightarrow> scrollLeft ob + clientWidth ob \<ge> scrollWidth ob - 5"

text \<open>
  The page as \<^verbatim>\<open>parse_common_section\<close> meets it: whether the wait of line 119 raises,
  how many scroll containers line 120 finds, the \<^verbatim>\<open>alt\<close> attribute of each position
  image of line 121, and what pass \<open>k\<close> of the loop sees of lane \<open>i\<close>. The page belongs
  to the site, so any sequence of observations is possible.
\<close>

record section_page =
  wait_grab :: "fault option"
  scroll_containers :: nat
  positions :: "string option list"
  lane_view :: "nat \<Rightarrow> nat \<Rightarrow> observation"

text \<open>
  The variables of one lane: \<^verbatim>\<open>seen_champions\<close>, \<^verbatim>\<open>counters\<close> and the dictionary
  \<^verbatim>\<open>counter_fields\<close>, which line 143 updates in place.
\<close>

record 'r lane_state =
  seen_champions :: "string option set"
  counters :: "'r option list"
  counter_fields :: "(string \<times> field_spec) list"

type_synonym 'r schema = "(string \<times> pyval) list \<Rightarrow> fault + 'r"

text \<open>
  \<^verbatim>\<open>parse_element_func\<close>: both callers pass \<^verbatim>\<open>self.parse_element\<close>, which returns a
  record or \<^verbatim>\<open>None\<close> and raises nothing.
\<close>

type_synonym 'r mapper =
  "element \<Rightarrow> 'r schema \<Rightarrow> (string \<times> field_spec) list \<Rightarrow> 'r option \<times> log_entry list"

text \<open>The \<^verbatim>\<open>for card in cards\<close> loop, lines 134 to 145.\<close>

fun parse_cards :: "string \<Rightarrow> 'r mapper \<Rightarrow> 'r schema \<Rightarrow> element list \<Rightarrow> 'r lane_state \<Rightarrow>
    fault + 'r lane_state" where
  "parse_cards flag parse_element_func schema [] st = Inr st"
| "parse_cards flag parse_element_func schema (crd # rest) st =
     (case card_key flag crd of
        Inl e \<Rightarrow> Inl e
      | Inr champ \<Rightarrow>
          if champ \<in> seen_champions st then parse_cards flag parse_element_func schema rest st
          else
            (let cfields = AList.update ''champion'' (champion_field champ) (counter_fields st);
                 parsed = fst (parse_element_func crd schema cfields)
             in parse_cards flag parse_element_func schema rest
                  \<lparr>seen_champions = insert champ (seen_champions st),
                   counters = counters st @ [parsed],
                   counter_fields = cfields\<rparr>))"

text \<open>
  The \<^verbatim>\<open>while True\<close> loop of lane \<open>i\<close>, lines 130 to 147, from its pass \<open>k\<close> on. The
  result is \<open>None\<close> when the loop never ends, a fault when a statement raises, and the
  lane's variables when the \<^verbatim>\<open>break\<close> of line 147 is taken.
\<close>

partial_function (option) lane_loop :: "string \<Rightarrow> 'r mapper \<Rightarrow> 'r schema \<Rightarrow> section_page \<Rightarrow>
    nat \<Rightarrow> nat \<Rightarrow> 'r lane_state \<Rightarrow> (fault + 'r lane_state) option" where
  "lane_loop flag parse_element_func schema page i k st =
     (if scroll_containers page \<le> i then Some (Inl IndexError)
      else (case parse_cards flag parse_element_func schema (cards (lane_view page i k)) st of
              Inl e \<Rightarrow> Some (Inl e)
            | Inr st' \<Rightarrow>
                if is_exhausted (lane_view page i k) then Some (Inr st')
                else lane_loop flag parse_element_func schema page i (Suc k) st'))"

declare lane_loop.simps [code]

text \<open>
  The \<^verbatim>\<open>for i in range(len(positions))\<close> loop, lines 125 to 149: \<open>common_data\<close> gets one
  entry \<^verbatim>\<open>{curr_lane: counters}\<close> for each lane, \<open>curr_lane\<close> being the \<^verbatim>\<open>alt\<close>
  attribute of \<^verbatim>\<open>positions[i]\<close>.
\<close>

fun lanes_loop :: "string \<Rightarrow> 'r mapper \<Rightarrow> 'r schema \<Rightarrow> section_page \<Rightarrow> nat list \<Rightarrow>
    (string \<times> field_spec) list \<Rightarrow> (string option \<times> 'r option list) list \<Rightarrow>
    (fault + (string option \<times> 'r option list) list \<times> (string \<times> field_spec) list) option" where
  "lanes_loop flag parse_element_func schema page [] cfields common_data =
     Some (Inr (common_data, cfields))"
| "lanes_loop flag parse_element_func schema page (i # rest) cfields common_data =
     (case py_index (positions page) i of
        Inl e \<Rightarrow> Some (Inl e)
      | Inr curr_lane \<Rightarrow>
          (case lane_loop flag parse_element_func schema page i 0
                  \<lparr>seen_champions = {}, counters = [], counter_fields = cfields\<rparr> of
             None \<Rightarrow> None
           | Some (Inl e) \<Rightarrow> Some (Inl e)
           | Some (Inr st) \<Rightarrow>
               lanes_loop flag parse_element_func schema page rest (counter_fields st)
                 (common_data @ [(curr_lane, counters st)])))"

text \<open>
  \<^verbatim>\<open>LolalyticsParser.parse_common_section\<close>. The result holds \<open>common_data\<close> and the
  dictionary \<^verbatim>\<open>counter_fields\<close> (here \<open>cfields\<close>) as the call leaves it.
\<close>

definition parse_common_section :: "string \<Rightarrow> (string \<times> field_spec) list \<Rightarrow> 'r mapper \<Rightarrow> 'r schema \<Rightarrow>
    section_page \<Rightarrow>
    (fault + (string option \<times> 'r option list) list \<times> (string \<times> field_spec) list) option" where
  "parse_common_section flag cfields parse_element_func schema page =
     (case wait_grab page of
        Some e \<Rightarrow> Some (Inl e)
      | None \<Rightarrow>
          lanes_loop flag parse_element_func schema page [0..<length (positions page)] cfields [])"

section \<open>Champion build page\<close>

text \<open>
  \<^verbatim>\<open>String.prototype.trim\<close> of the page's script: the white space and line terminators
  of ECMAScript below U+0100. It differs from the set of \<^verbatim>\<open>str.strip\<close>: \<^verbatim>\<open>trim\<close> keeps
  U+001C to U+001F and U+0085, which \<^verbatim>\<open>str.strip\<close> removes (and beyond U+0100 it removes
  U+FEFF, which \<^verbatim>\<open>str.strip\<close> keeps).
\<close>

definition js_isspace :: "char \<Rightarrow> bool" where
  "js_isspace c \<longleftrightarrow> c \<in> {CHR 0x09, CHR 0x0A, CHR 0x0B, CHR 0x0C, CHR 0x0D, CHR 0x20, CHR 0xA0}"

definition js_trim :: "string \<Rightarrow> string" where
  "js_trim s = rev (dropWhile js_isspace (rev (dropWhile js_isspace s)))"

text \<open>
  The predicate of lines 177 to 180, \<^verbatim>\<open>el && el.textContent.trim() !== args.oldCheck\<close>.
  Its argument is what the selector finds on the page at the moment of the check: nothing,
  or an element with its text.
\<close>

definition changed :: "string \<Rightarrow> string option \<Rightarrow> bool" where
  "changed oldCheck el = (case el of None \<Rightarrow> False | Some t \<Rightarrow> js_trim t \<noteq> oldCheck)"

text \<open>Line 183: \<^verbatim>\<open>old_check.strip() if old_check else ""\<close>.\<close>

definition old_check_arg :: "string option \<Rightarrow> string" where
  "old_check_arg old_check =
     (case old_check of None \<Rightarrow> [] | Some s \<Rightarrow> if s = [] then [] else py_strip s)"

text \<open>
  \<^verbatim>\<open>page.wait_for_function(predicate, arg, timeout)\<close> of Playwright evaluates the predicate
  on the page again and again; it returns when the predicate holds and raises
  \<^verbatim>\<open>TimeoutError\<close> when the timeout has elapsed before. \<open>polls\<close> lists what the checks
  made before the timeout find, in order; a longer timeout is a longer list.
\<close>

definition wait_for_function :: "('a \<Rightarrow> bool) \<Rightarrow> 'a list \<Rightarrow> fault + unit" where
  "wait_for_function predicate polls = (if list_ex predicate polls then Inr () else Inl TimeoutError)"

text \<open>The operations that \<^verbatim>\<open>parse_champion_build\<close> performs on the page, in order.\<close>

datatype page_op = New_page | Goto | Mouse_wheel int | Wait_for_timeout int | Section string
  | Wait_for_selector | Read_anchor | Click | Wait_for_function | Query_rows | Close_page

text \<open>\<^verbatim>\<open>PlaywrightBrowser.auto_scroll\<close> with the default \<^verbatim>\<open>delay\<close> and \<^verbatim>\<open>step\<close>.\<close>

definition auto_scroll :: "nat \<Rightarrow> page_op list" where
  "auto_scroll max_scrolls = concat (replicate max_scrolls [Mouse_wheel 300, Wait_for_timeout 10])"

text \<open>
  What the site answers to \<^verbatim>\<open>parse_champion_build\<close>: whether opening the page, the
  navigation, the wait of line 171 and the click raise; the document; the page as the
  two section extractions meet it; the anchor that line 172 finds; what the checks of
  the wait of line 176 find; and the rows of the objectives table. An operation that has
  no entry here is taken to succeed.
\<close>

record build_page =
  new_page :: "fault option"
  goto :: "fault option"
  document :: element
  matchup_page :: section_page
  wait_anchor :: "fault option"
  anchor :: "element option"
  click :: "fault option"
  anchor_polls :: "string option list"
  teammates_page :: section_page
  objective_rows :: "element list"

text \<open>Lines 157 to 163; \<open>CHR 0x5C\<close> is the backslash of the last selector.\<close>

definition build_counter_fields :: "(string \<times> field_spec) list" where
  "build_counter_fields =
     [(''wr'', (Some ''div.my-1:nth-child(2)'', Some ''text'', None)),
      (''delta_1'', (Some ''div.my-1:nth-child(3)'', Some ''text'', None)),
      (''delta_2'', (Some ''div.my-1:nth-child(4)'', Some ''text'', None)),
      (''pr'', (Some ''div.my-1:nth-child(5)'', Some ''text'', None)),
      (''games'',
       (Some (''div.text-'' @ CHR 0x5C # ''[9px'' @ CHR 0x5C # ''].text-'' @ CHR 0x5C # ''['' @
              CHR 0x5C # ''#bbb'' @ CHR 0x5C # '']''),
        Some ''text'', None))]"

text \<open>
  Lines 195 to 204, the loop over the rows of the objectives table. \<open>objective_info\<close> is
  the class \<^verbatim>\<open>ObjectiveInfo\<close>, called with the four texts.
\<close>

fun objectives_loop :: "(string option \<times> string option \<times> string option \<times> string option \<Rightarrow> fault + 'o) \<Rightarrow>
    element list \<Rightarrow> (string \<times> 'o) list \<Rightarrow> fault + (string \<times> 'o) list" where
  "objectives_loop objective_info [] objectives = Inr objectives"
| "objectives_loop objective_info (row # rest) objectives =
     (let tds = query_selector_all row ''td''
      in case py_index tds 0 of
           Inl e \<Rightarrow> Inl e
         | Inr td0 \<Rightarrow>
             (case text_content td0 of
                None \<Rightarrow> Inl AttributeError
              | Some n \<Rightarrow>
                  (case py_index tds 1 of
                     Inl e \<Rightarrow> Inl e
                   | Inr td1 \<Rightarrow>
                       (case py_index tds 2 of
                          Inl e \<Rightarrow> Inl e
                        | Inr td2 \<Rightarrow>
                            (case objective_info
                                   (text_content td1, text_content td2,
                                    (if length tds > 3 then text_content (tds ! 3) else None),
                                    (if length tds > 4 then text_content (tds ! 4) else None)) of
                               Inl e \<Rightarrow> Inl e
                             | Inr info \<Rightarrow>
                                 objectives_loop objective_info rest
                                   (AList.update (map ascii_lower n) info objectives))))))"

text \<open>
  Lines 188 to 206: the teammates section, the objectives and the result.
  \<open>counter_card\<close> is the class \<^verbatim>\<open>CounterCardV2\<close> and \<open>champion_stats\<close> the class
  \<^verbatim>\<open>ChampionStats\<close>. The result is \<open>None\<close> when a section never ends; otherwise it is
  the value or the fault of the statements, with the operations performed.
\<close>

definition build_tail :: "'r schema \<Rightarrow>
    (string option \<times> string option \<times> string option \<times> string option \<Rightarrow> fault + 'o) \<Rightarrow>
    (string \<Rightarrow> (string \<times> 'o) list \<Rightarrow> (string option \<times> 'r option list) list \<Rightarrow>
       (string option \<times> 'r option list) list \<Rightarrow> fault + 's) \<Rightarrow>
    string \<Rightarrow> build_page \<Rightarrow> (string \<times> field_spec) list \<Rightarrow>
    (string option \<times> 'r option list) list \<Rightarrow> ((fault + 's) \<times> page_op list) option" where
  "build_tail counter_card objective_info champion_stats champion env cfields common_matchup =
     (case parse_common_section ''teammates'' cfields
             (parse_element (Some (document env))) counter_card (teammates_page env) of
        None \<Rightarrow> None
      | Some (Inl e) \<Rightarrow> Some (Inl e, [Section ''teammates''])
      | Some (Inr (common_teammates, cfields')) \<Rightarrow>
          Some ((case objectives_loop objective_info (objective_rows env) [] of
                   Inl e \<Rightarrow> Inl e
                 | Inr objectives \<Rightarrow>
                     champion_stats champion objectives common_matchup common_teammates),
                [Section ''teammates'', Query_rows]))"

text \<open>Lines 171 to 186, the change barrier, and then the rest.\<close>

definition build_barrier :: "'r schema \<Rightarrow>
    (string option \<times> string option \<times> string option \<times> string option \<Rightarrow> fault + 'o) \<Rightarrow>
    (string \<Rightarrow> (string \<times> 'o) list \<Rightarrow> (string option \<times> 'r option list) list \<Rightarrow>
       (string option \<times> 'r option list) list \<Rightarrow> fault + 's) \<Rightarrow>
    string \<Rightarrow> build_page \<Rightarrow> (string \<times> field_spec) list \<Rightarrow>
    (string option \<times> 'r option list) list \<Rightarrow> ((fault + 's) \<times> page_op list) option" where
  "build_barrier counter_card objective_info champion_stats champion env cfields common_matchup =
     (case wait_anchor env of
        Some e \<Rightarrow> Some (Inl e, [Wait_for_selector])
      | None \<Rightarrow>
          (case anchor env of
             None \<Rightarrow> Some (Inl AttributeError, [Wait_for_selector, Read_anchor])
           | Some a \<Rightarrow>
               (let old_check = text_content a
                in case click env of
                     Some e \<Rightarrow> Some (Inl e, [Wait_for_selector, Read_anchor, Click])
                   | None \<Rightarrow>
                       (case wait_for_function (changed (old_check_arg old_check))
                               (anchor_polls env) of
                          Inl e \<Rightarrow>
                            Some (Inl e, [Wait_for_selector, Read_anchor, Click, Wait_for_function])
                        | Inr u \<Rightarrow>
                            (case build_tail counter_card objective_info champion_stats champion
                                    env cfields common_matchup of
                               None \<Rightarrow> None
                             | Some (r, ops) \<Rightarrow>
                                 Some (r, [Wait_for_selector, Read_anchor, Click,
                                           Wait_for_function] @ ops))))))"

text \<open>The \<^verbatim>\<open>try\<close> block, lines 166 to 206.\<close>

definition build_body :: "'r schema \<Rightarrow>
    (string option \<times> string option \<times> string option \<times> string option \<Rightarrow> fault + 'o) \<Rightarrow>
    (string \<Rightarrow> (string \<times> 'o) list \<Rightarrow> (string option \<times> 'r option list) list \<Rightarrow>
       (string option \<times> 'r option list) list \<Rightarrow> fault + 's) \<Rightarrow>
    string \<Rightarrow> build_page \<Rightarrow> ((fault + 's) \<times> page_op list) option" where
  "build_body counter_card objective_info champion_stats champion env =
     (case new_page env of
        Some e \<Rightarrow> Some (Inl e, [New_page])
      | None \<Rightarrow>
          (case goto env of
             Some e \<Rightarrow> Some (Inl e, [New_page, Goto])
           | None \<Rightarrow>
               (case parse_common_section ''matchup'' build_counter_fields
                       (parse_element (Some (document env))) counter_card (matchup_page env) of
                  None \<Rightarrow> None
                | Some (Inl e) \<Rightarrow>
                    Some (Inl e, [New_page, Goto] @ auto_scroll 5 @ [Section ''matchup''])
                | Some (Inr (common_matchup, cfields)) \<Rightarrow>
                    (case build_barrier counter_card objective_info champion_stats champion
                            env cfields common_matchup of
                       None \<Rightarrow> None
                     | Some (r, ops) \<Rightarrow>
                         Some (r, [New_page, Goto] @ auto_scroll 5 @ [Section ''matchup''] @ ops)))))"

text \<open>
  \<^verbatim>\<open>LolalyticsParser.parse_champion_build\<close>: a fault of the \<^verbatim>\<open>try\<close> block gives
  \<^verbatim>\<open>None\<close>, and \<^verbatim>\<open>finally\<close> closes the page when one was opened (\<^verbatim>\<open>self.page\<close> is
  \<^verbatim>\<open>None\<close> before the call, as the constructor leaves it).
\<close>

definition parse_champion_build :: "'r schema \<Rightarrow>
    (string option \<times> string option \<times> string option \<times> string option \<Rightarrow> fault + 'o) \<Rightarrow>
    (string \<Rightarrow> (string \<times> 'o) list \<Rightarrow> (string option \<times> 'r option list) list \<Rightarrow>
       (string option \<times> 'r option list) list \<Rightarrow> fault + 's) \<Rightarrow>
    string \<Rightarrow> build_page \<Rightarrow> ('s option \<times> page_op list) option" where
  "parse_champion_build counter_card objective_info champion_stats champion env =
     (case build_body counter_card objective_info champion_stats champion env of
        None \<Rightarrow> None
      | Some (r, ops) \<Rightarrow>
          Some ((case r of Inl e \<Rightarrow> None | Inr stats \<Rightarrow> Some stats),
                ops @ (if new_page env = None then [Close_page] else [])))"

section \<open>Auxiliary notions for the statements\<close>

text \<open>
  The lane loop run for at most \<open>n\<close> passes: \<open>None\<close> when \<open>n\<close> passes do not end it.
  It is \<open>lane_loop\<close> with a bound and serves the proofs about \<open>lane_loop\<close>.
\<close>

fun lane_loop_fuel :: "nat \<Rightarrow> string \<Rightarrow> 'r mapper \<Rightarrow> 'r schema \<Rightarrow> section_page \<Rightarrow>
    nat \<Rightarrow> nat \<Rightarrow> 'r lane_state \<Rightarrow> (fault + 'r lane_state) option" where
  "lane_loop_fuel 0 flag parse_element_func schema page i k st = None"
| "lane_loop_fuel (Suc n) flag parse_element_func schema page i k st =
     (if scroll_containers page \<le> i then Some (Inl IndexError)
      else (case parse_cards flag parse_element_func schema (cards (lane_view page i k)) st of
              Inl e \<Rightarrow> Some (Inl e)
            | Inr st' \<Rightarrow>
                if is_exhausted (lane_view page i k) then Some (Inr st')
                else lane_loop_fuel n flag parse_element_func schema page i (Suc k) st'))"

text \<open>The identity key of a card can be computed.\<close>

definition has_key :: "string \<Rightarrow> element \<Rightarrow> bool" where
  "has_key flag crd = (case card_key flag crd of Inl e \<Rightarrow> False | Inr champ \<Rightarrow> True)"

text \<open>
  Pass \<open>k\<close> of lane \<open>i\<close> raises nothing: the lane has its scroll container and every
  card of the pass has an identity key.
\<close>

definition pass_ok :: "string \<Rightarrow> section_page \<Rightarrow> nat \<Rightarrow> nat \<Rightarrow> bool" where
  "pass_ok flag page i k \<longleftrightarrow>
     i < scroll_containers page \<and> list_all (has_key flag) (cards (lane_view page i k))"

text \<open>
  Two field tables that differ at most in their entry \<^verbatim>\<open>'champion'\<close>, which line 143
  overwrites before each use.
\<close>

definition same_but_champion :: "(string \<times> field_spec) list \<Rightarrow> (string \<times> field_spec) list \<Rightarrow> bool" where
  "same_but_champion f g \<longleftrightarrow> (\<forall>v. AList.update ''champion'' v f = AList.update ''champion'' v g)"

text \<open>
  The invariant of a lane that started with the field table \<open>cf\<close>: the records of
  \<open>counters\<close> are the mapped cards of a list \<open>cands\<close> of candidates with their keys, in
  which no key occurs twice and whose keys are the seen ones.
\<close>

definition lane_inv :: "string \<Rightarrow> 'r mapper \<Rightarrow> 'r schema \<Rightarrow> (string \<times> field_spec) list \<Rightarrow>
    'r lane_state \<Rightarrow> (string option \<times> element) list \<Rightarrow> bool" where
  "lane_inv flag pef schema cf st cands \<longleftrightarrow>
     distinct (map fst cands) \<and> set (map fst cands) = seen_champions st \<and>
     (\<forall>(champ, c) \<in> set cands. card_key flag c = Inr champ) \<and>
     counters st =
       map (\<lambda>(champ, c). fst (pef c schema (AList.update ''champion'' (champion_field champ) cf)))
         cands \<and>
     same_but_champion cf (counter_fields st)"

text \<open>Two lane states that agree up to the entry \<^verbatim>\<open>'champion'\<close> of the field table.\<close>

definition lane_sim :: "'r lane_state \<Rightarrow> 'r lane_state \<Rightarrow> bool" where
  "lane_sim s t \<longleftrightarrow> seen_champions s = seen_champions t \<and> counters s = counters t \<and>
     same_but_champion (counter_fields s) (counter_fields t)"

section \<open>Example inputs\<close>

text \<open>A card whose anchor has the given reference, and a card without an anchor.\<close>

definition card_with_link :: "string option \<Rightarrow> element" where
  "card_with_link href =
     Element [(''a'', [Element [] (Some ''Darius'')
        (case href of None \<Rightarrow> [] | Some h \<Rightarrow> [(''href'', h)])])] (Some ''Darius 52.3'') []"

definition card_without_anchor :: element where
  "card_without_anchor = Element [] (Some ''advert'') []"

text \<open>A pass that shows the cards \<open>cs\<close> at scroll offset \<open>left\<close> of a strip 500 wide in a window 300 wide.\<close>

definition view_of :: "element list \<Rightarrow> int \<Rightarrow> observation" where
  "view_of cs left = \<lparr>cards = cs, scrollLeft = left, clientWidth = 300, scrollWidth = 500\<rparr>"

text \<open>A page with one lane that shows no card and whose scroll offset stays at 0.\<close>

definition stuck_page :: section_page where
  "stuck_page = \<lparr>wait_grab = None, scroll_containers = 1, positions = [Some ''top''],
     lane_view = (\<lambda>i k. view_of [] 0)\<rparr>"

text \<open>A page with one lane that shows two cards on its first pass and, scrolled to the end, two on the second, one of them again.\<close>

definition overlap_page :: section_page where
  "overlap_page = \<lparr>wait_grab = None, scroll_containers = 1, positions = [Some ''top''],
     lane_view = (\<lambda>i k.
       if k = 0 then view_of [card_with_link (Some ''/lol/jax/vs/darius/build/''),
                              card_with_link (Some ''/lol/jax/vs/garen/build/'')] 100
       else view_of [card_with_link (Some ''/lol/jax/vs/garen/build/''),
                     card_with_link (Some ''/lol/jax/vs/teemo/build/'')] 200)\<rparr>"

text \<open>A page with one lane, at its end from the first pass on, whose first card has no anchor.\<close>

definition keyless_page :: section_page where
  "keyless_page = \<lparr>wait_grab = None, scroll_containers = 1, positions = [Some ''top''],
     lane_view = (\<lambda>i k. view_of [card_without_anchor,
                                   card_with_link (Some ''/lol/jax/vs/garen/build/'')] 200)\<rparr>"

text \<open>A page with one lane, at its end from the first pass on, with a single card.\<close>

definition single_card_page :: section_page where
  "single_card_page = \<lparr>wait_grab = None, scroll_containers = 1, positions = [Some ''top''],
     lane_view = (\<lambda>i k. view_of [card_with_link (Some ''/lol/jax/vs/darius/build/'')] 200)\<rparr>"

text \<open>The transform \<^verbatim>\<open>lambda s: s[2:]\<close>: only a string can be sliced.\<close>

definition drop2 :: transform where
  "drop2 v = (case v of VStr s \<Rightarrow> Inr (VStr (drop 2 s)) | VNone \<Rightarrow> Inl TypeError | VNum x \<Rightarrow> Inl TypeError)"

text \<open>The transform \<^verbatim>\<open>lambda v: 1 if v is None else v + 1\<close>.\<close>

definition bump :: transform where
  "bump v = (case v of VNone \<Rightarrow> Inr (VNum 1) | VNum x \<Rightarrow> Inr (VNum (x + 1)) | VStr s \<Rightarrow> Inl TypeError)"

text \<open>
  A build page whose matchup section is \<open>overlap_page\<close> and whose anchor reads
  \<^verbatim>\<open>10W 5L\<close> before the click and at both checks of the wait after it.
\<close>

definition stale_build_page :: build_page where
  "stale_build_page = \<lparr>new_page = None, goto = None, document = Element [] None [],
     matchup_page = overlap_page, wait_anchor = None,
     anchor = Some (Element [] (Some ''10W 5L'') []), click = None,
     anchor_polls = [Some ''10W 5L'', Some '' 10W 5L ''],
     teammates_page = overlap_page, objective_rows = []\<rparr>"

text \<open>The same build page with \<open>keyless_page\<close> as its matchup section.\<close>

definition keyless_build_page :: build_page where
  "keyless_build_page = stale_build_page\<lparr>matchup_page := keyless_page\<rparr>"

text \<open>
  The build page whose anchor reads U+0085 followed by \<^verbatim>\<open>10W 5L\<close>, before the click and
  at both checks of the wait after it.
\<close>

definition unchanged_build_page :: build_page where
  "unchanged_build_page = stale_build_page
     \<lparr>anchor := Some (Element [] (Some (CHR 0x85 # ''10W 5L'')) []),
      anchor_polls := [Some (CHR 0x85 # ''10W 5L''), Some (CHR 0x85 # ''10W 5L'')]\<rparr>"

text \<open>A table cell whose \<^verbatim>\<open>span\<close> reads \<^verbatim>\<open>52.3%\<close> between blanks.\<close>

definition percent_cell :: element where
  "percent_cell = Element [(''span'', [Element [] (Some '' 52.3% '') []])] None []"

section \<open>Properties of the win/loss parser\<close>

lemma int_digits_fault: "int_digits acc s = Inl e \<Longrightarrow> e = ValueError"
  by (induction acc s rule: int_digits.induct) (auto split: if_splits)

lemma py_int_fault: "py_int s = Inl e \<Longrightarrow> e = ValueError"
  by (auto simp: py_int_def Let_def split: if_splits sum.splits dest: int_digits_fault)

lemma int_if_truthy_fault: "int_if_truthy v = Inl e \<Longrightarrow> e = ValueError"
  by (auto simp: int_if_truthy_def split: option.splits if_splits sum.splits dest: py_int_fault)

lemma parse_win_loss_body_fault:
  "parse_win_loss_body wl = Inl e \<Longrightarrow> e = ValueError \<or> e = IndexError"
  by (auto simp: parse_win_loss_body_def py_index_def
      split: sum.splits if_splits dest: int_if_truthy_fault)

lemma parse_win_loss_body_short:
  "length wl < 3 \<Longrightarrow> parse_win_loss_body wl = Inl IndexError"
  by (auto simp: parse_win_loss_body_def py_index_def split: sum.splits)

text \<open>
  C10. The win/loss parser never raises, and on every list of fewer than three entries
  it returns the pair \<open>(None, None)\<close>: a list of two entries passes the length guard and
  the read of index 2 raises the \<^verbatim>\<open>IndexError\<close> that the handler turns into that pair.
\<close>

theorem parse_win_loss_total:
  "(\<exists>r. parse_win_loss wl = Inr r) \<and>
   (length wl < 3 \<longrightarrow> parse_win_loss wl = Inr (None, None))"
proof
  show "\<exists>r. parse_win_loss wl = Inr r"
    by (cases "parse_win_loss_body wl")
       (auto simp: parse_win_loss_def dest: parse_win_loss_body_fault)
  show "length wl < 3 \<longrightarrow> parse_win_loss wl = Inr (None, None)"
    by (simp add: parse_win_loss_def parse_win_loss_body_short)
qed

theorem parse_win_loss_total_witness:
  "length [Some ''12'', Some ''3''] < 3 \<and>
   parse_win_loss [Some ''12'', Some ''3''] = Inr (None, None)"
  using parse_win_loss_total [of "[Some ''12'', Some ''3'']"] by simp

section \<open>The page argument of the field mapper\<close>

text \<open>
  The field mapper passes the element as \<^verbatim>\<open>parent\<close> to every extraction, so its result
  does not depend on \<^verbatim>\<open>self.page\<close>.
\<close>

lemma locate_parent: "locate page selector (Some p) = locate page' selector (Some p)"
  by (simp add: locate_def)

lemma resolve_field_page: "resolve_field page el spec = resolve_field page' el spec"
  by (simp add: resolve_field_def extract_text_def extract_text_body_def extract_number_def
      locate_def split: prod.splits option.splits)

lemma field_value_page: "field_value page el spec = field_value page' el spec"
  by (simp add: field_value_def resolve_field_page[of page el spec page'])

lemma parse_fields_page: "parse_fields page el ftab vals = parse_fields page' el ftab vals"
proof (induction ftab arbitrary: vals)
  case Nil
  show ?case by simp
next
  case (Cons f ftab)
  obtain n sp where f: "f = (n, sp)" by (cases f)
  obtain r l where fv: "field_value page' el sp = (r, l)" by (cases "field_value page' el sp")
  then have fv': "field_value page el sp = (r, l)" by (simp add: field_value_page[of page el sp page'])
  show ?case
  proof (cases r)
    case (Inl e)
    with f fv fv' show ?thesis by simp
  next
    case (Inr v)
    with f fv fv' Cons.IH[of "AList.update n v vals"] show ?thesis by simp
  qed
qed

lemma parse_element_page: "parse_element page = parse_element page'"
  by (intro ext) (simp add: parse_element_def parse_fields_page[of page _ _ _ page'])

section \<open>The lane loop and its bounded unrolling\<close>

lemma lane_loop_fuel_sound:
  "lane_loop_fuel n flag pef schema page i k st = Some r \<Longrightarrow>
   lane_loop flag pef schema page i k st = Some r"
proof (induction n arbitrary: k st)
  case 0
  then show ?case by simp
next
  case (Suc n)
  from Suc.prems show ?case
    by (subst lane_loop.simps) (auto split: sum.splits if_splits intro: Suc.IH)
qed

lemma lane_loop_fuel_complete:
  assumes "lane_loop flag pef schema page i k st = Some r"
  shows "\<exists>n. lane_loop_fuel n flag pef schema page i k st = Some r"
  using assms
proof (induct rule: lane_loop.raw_induct[rotated 1, consumes 1])
  case (1 loop flag pef schema page i k st r)
  show ?case
  proof (cases "scroll_containers page \<le> i \<or>
      (\<exists>e. parse_cards flag pef schema (cards (lane_view page i k)) st = Inl e) \<or>
      is_exhausted (lane_view page i k)")
    case True
    with 1(2) have "lane_loop_fuel (Suc 0) flag pef schema page i k st = Some r"
      by (auto split: sum.splits if_splits)
    then show ?thesis by blast
  next
    case False
    then obtain st' where st': "parse_cards flag pef schema (cards (lane_view page i k)) st = Inr st'"
      by (cases "parse_cards flag pef schema (cards (lane_view page i k)) st") auto
    with False 1(2) have "loop flag pef schema page i (Suc k) st' = Some r" by simp
    then obtain n where "lane_loop_fuel n flag pef schema page i (Suc k) st' = Some r"
      using 1(1) by blast
    with False st' have "lane_loop_fuel (Suc n) flag pef schema page i k st = Some r"
      by simp
    then show ?thesis by blast
  qed
qed

lemma lane_loop_None_iff:
  "lane_loop flag pef schema page i k st = None \<longleftrightarrow>
   (\<forall>n. lane_loop_fuel n flag pef schema page i k st = None)"
  by (metis lane_loop_fuel_sound lane_loop_fuel_complete option.exhaust option.distinct(1))

lemma has_key_iff: "has_key flag c \<longleftrightarrow> (\<exists>champ. card_key flag c = Inr champ)"
  by (simp add: has_key_def split: sum.splits)

lemma parse_cards_fault:
  "list_all (has_key flag) cs \<Longrightarrow>
   \<exists>st'. parse_cards flag pef schema cs st = Inr st'"
  by (induction cs arbitrary: st) (auto simp: Let_def has_key_iff)

lemma parse_cards_first_fault:
  "list_all (has_key flag) pre \<Longrightarrow>
   card_key flag c = Inl e \<Longrightarrow>
   parse_cards flag pef schema (pre @ c # post) st = Inl e"
  by (induction pre arbitrary: st) (auto simp: Let_def has_key_iff)

lemma parse_cards_result_ok:
  "parse_cards flag pef schema cs st = Inr st' \<Longrightarrow>
   list_all (has_key flag) cs"
  by (induction cs arbitrary: st) (auto simp: Let_def has_key_iff split: sum.splits if_splits)

lemma lane_loop_fuel_diverges:
  "\<forall>k. \<not> is_exhausted (lane_view page i k) \<Longrightarrow> \<forall>k. pass_ok flag page i k \<Longrightarrow>
   lane_loop_fuel n flag pef schema page i k st = None"
proof (induction n arbitrary: k st)
  case 0
  then show ?case by simp
next
  case (Suc n)
  from Suc.prems(2) have ok: "i < scroll_containers page"
    and "list_all (has_key flag)
           (cards (lane_view page i k))"
    by (simp_all add: pass_ok_def)
  then obtain st' where "parse_cards flag pef schema (cards (lane_view page i k)) st = Inr st'"
    using parse_cards_fault by blast
  with ok Suc show ?case by simp
qed

lemma lane_loop_diverges:
  "\<forall>k. \<not> is_exhausted (lane_view page i k) \<Longrightarrow> \<forall>k. pass_ok flag page i k \<Longrightarrow>
   lane_loop flag pef schema page i k st = None"
  by (simp add: lane_loop_None_iff lane_loop_fuel_diverges)

lemma lane_loop_fuel_returns_exhausted:
  "lane_loop_fuel n flag pef schema page i k st = Some (Inr st') \<Longrightarrow>
   \<exists>m\<ge>k. is_exhausted (lane_view page i m) \<and> (\<forall>j. k \<le> j \<and> j \<le> m \<longrightarrow> pass_ok flag page i j)"
proof (induction n arbitrary: k st)
  case 0
  then show ?case by simp
next
  case (Suc n)
  from Suc.prems have c: "i < scroll_containers page" by (auto split: if_splits)
  from Suc.prems c obtain st1 where
    st1: "parse_cards flag pef schema (cards (lane_view page i k)) st = Inr st1"
    by (auto split: sum.splits if_splits)
  then have okk: "pass_ok flag page i k"
    using c parse_cards_result_ok by (simp add: pass_ok_def)
  show ?case
  proof (cases "is_exhausted (lane_view page i k)")
    case True
    with okk show ?thesis by (intro exI[of _ k]) (auto dest: le_antisym)
  next
    case False
    with Suc.prems c st1 have "lane_loop_fuel n flag pef schema page i (Suc k) st1 = Some (Inr st')"
      by simp
    then obtain m where m: "Suc k \<le> m" "is_exhausted (lane_view page i m)"
      "\<forall>j. Suc k \<le> j \<and> j \<le> m \<longrightarrow> pass_ok flag page i j"
      using Suc.IH by blast
    have "\<forall>j. k \<le> j \<and> j \<le> m \<longrightarrow> pass_ok flag page i j"
    proof (intro allI impI)
      fix j assume "k \<le> j \<and> j \<le> m"
      then show "pass_ok flag page i j"
        using okk m(3) by (cases "j = k") auto
    qed
    with m show ?thesis by (intro exI[of _ m]) auto
  qed
qed

lemma lane_loop_returns_when_exhausted:
  "is_exhausted (lane_view page i m) \<Longrightarrow> k \<le> m \<Longrightarrow>
   \<forall>j. k \<le> j \<and> j \<le> m \<longrightarrow> pass_ok flag page i j \<Longrightarrow>
   \<exists>st'. lane_loop flag pef schema page i k st = Some (Inr st')"
proof (induction "m - k" arbitrary: k st)
  case 0
  then have km: "k = m" by simp
  with 0 have "pass_ok flag page i k" by simp
  then have c: "i < scroll_containers page"
    and la: "list_all (has_key flag) (cards (lane_view page i k))"
    by (simp_all add: pass_ok_def)
  obtain st1 where "parse_cards flag pef schema (cards (lane_view page i k)) st = Inr st1"
    using parse_cards_fault[OF la] by blast
  with 0 km c show ?case by (subst lane_loop.simps) auto
next
  case (Suc d)
  then have "pass_ok flag page i k" by simp
  then have c: "i < scroll_containers page"
    and la: "list_all (has_key flag) (cards (lane_view page i k))"
    by (simp_all add: pass_ok_def)
  obtain st1 where st1: "parse_cards flag pef schema (cards (lane_view page i k)) st = Inr st1"
    using parse_cards_fault[OF la] by blast
  show ?case
  proof (cases "is_exhausted (lane_view page i k)")
    case True
    with c st1 show ?thesis by (subst lane_loop.simps) auto
  next
    case False
    from Suc have "d = m - Suc k" "Suc k \<le> m" by auto
    moreover from Suc.prems have "\<forall>j. Suc k \<le> j \<and> j \<le> m \<longrightarrow> pass_ok flag page i j" by auto
    ultimately obtain st' where "lane_loop flag pef schema page i (Suc k) st1 = Some (Inr st')"
      using Suc.hyps(1)[of "Suc k" st1] Suc.prems(1) by blast
    with c st1 False show ?thesis by (subst lane_loop.simps) auto
  qed
qed

lemma lane_loop_fault_at_pass:
  "i < scroll_containers page \<Longrightarrow> cards (lane_view page i k) = pre @ c # post \<Longrightarrow>
   list_all (has_key flag) pre \<Longrightarrow>
   card_key flag c = Inl e \<Longrightarrow>
   lane_loop flag pef schema page i k st = Some (Inl e)"
  by (subst lane_loop.simps) (simp add: parse_cards_first_fault)

section \<open>Deduplication within a lane\<close>

lemma same_but_champion_refl: "same_but_champion f f"
  by (simp add: same_but_champion_def)

lemma same_but_champion_update: "same_but_champion f g \<Longrightarrow> same_but_champion f (AList.update ''champion'' v g)"
  by (simp add: same_but_champion_def)

lemma same_but_champion_sym: "same_but_champion f g \<Longrightarrow> same_but_champion g f"
  by (simp add: same_but_champion_def)

lemma parse_cards_inv:
  "parse_cards flag pef schema cs st = Inr st' \<Longrightarrow> lane_inv flag pef schema cf st cands \<Longrightarrow>
   \<exists>cands'. lane_inv flag pef schema cf st' cands'"
proof (induction cs arbitrary: st cands)
  case Nil
  then show ?case by auto
next
  case (Cons c cs)
  from Cons.prems(1) obtain champ where k: "card_key flag c = Inr champ"
    by (auto split: sum.splits)
  show ?case
  proof (cases "champ \<in> seen_champions st")
    case True
    with k Cons.prems show ?thesis by (auto intro: Cons.IH)
  next
    case False
    let ?f = "AList.update ''champion'' (champion_field champ) (counter_fields st)"
    let ?st1 = "\<lparr>seen_champions = insert champ (seen_champions st),
        counters = counters st @ [fst (pef c schema ?f)], counter_fields = ?f\<rparr>"
    from False k Cons.prems(1) have run: "parse_cards flag pef schema cs ?st1 = Inr st'"
      by (simp add: Let_def)
    from Cons.prems(2) have sb: "same_but_champion cf (counter_fields st)"
      by (simp add: lane_inv_def)
    then have eq: "?f = AList.update ''champion'' (champion_field champ) cf"
      unfolding same_but_champion_def by (simp del: split_paired_All)
    have "lane_inv flag pef schema cf ?st1 (cands @ [(champ, c)])"
      using Cons.prems(2) False k eq same_but_champion_update[OF same_but_champion_refl, of cf]
      by (auto simp: lane_inv_def)
    with run show ?thesis by (rule Cons.IH)
  qed
qed

lemma lane_loop_fuel_inv:
  "lane_loop_fuel n flag pef schema page i k st = Some (Inr st') \<Longrightarrow>
   lane_inv flag pef schema cf st cands \<Longrightarrow> \<exists>cands'. lane_inv flag pef schema cf st' cands'"
proof (induction n arbitrary: k st cands)
  case 0
  then show ?case by simp
next
  case (Suc n)
  from Suc.prems(1) obtain st1 where
    st1: "parse_cards flag pef schema (cards (lane_view page i k)) st = Inr st1"
    by (auto split: sum.splits if_splits)
  then obtain c1 where c1: "lane_inv flag pef schema cf st1 c1"
    using parse_cards_inv Suc.prems(2) by blast
  show ?case
  proof (cases "is_exhausted (lane_view page i k)")
    case True
    with Suc.prems(1) st1 have "st' = st1" by (auto split: if_splits)
    with c1 show ?thesis by blast
  next
    case False
    with Suc.prems(1) st1 have "lane_loop_fuel n flag pef schema page i (Suc k) st1 = Some (Inr st')"
      by (auto split: if_splits)
    then show ?thesis using c1 by (rule Suc.IH)
  qed
qed

lemma parse_cards_sim:
  "lane_sim s t \<Longrightarrow> parse_cards flag pef schema cs s = Inr s' \<Longrightarrow>
   \<exists>t'. parse_cards flag pef schema cs t = Inr t' \<and> lane_sim s' t'"
proof (induction cs arbitrary: s t)
  case Nil
  then show ?case by auto
next
  case (Cons c cs)
  from Cons.prems(2) obtain champ where k: "card_key flag c = Inr champ"
    by (auto split: sum.splits)
  show ?case
  proof (cases "champ \<in> seen_champions s")
    case True
    with k Cons.prems have "parse_cards flag pef schema cs s = Inr s'" by simp
    from Cons.IH[OF Cons.prems(1) this] True k Cons.prems(1) show ?thesis
      by (auto simp: lane_sim_def)
  next
    case False
    let ?f = "AList.update ''champion'' (champion_field champ) (counter_fields s)"
    let ?g = "AList.update ''champion'' (champion_field champ) (counter_fields t)"
    let ?s1 = "\<lparr>seen_champions = insert champ (seen_champions s),
        counters = counters s @ [fst (pef c schema ?f)], counter_fields = ?f\<rparr>"
    let ?t1 = "\<lparr>seen_champions = insert champ (seen_champions t),
        counters = counters t @ [fst (pef c schema ?g)], counter_fields = ?g\<rparr>"
    from Cons.prems(1) have fg: "?f = ?g"
      unfolding lane_sim_def same_but_champion_def by (simp del: split_paired_All)
    from False k Cons.prems(2) have run: "parse_cards flag pef schema cs ?s1 = Inr s'"
      by (simp add: Let_def)
    have "lane_sim ?s1 ?t1"
      using Cons.prems(1) fg by (simp add: lane_sim_def same_but_champion_refl)
    from Cons.IH[OF this run] obtain t' where
      "parse_cards flag pef schema cs ?t1 = Inr t'" "lane_sim s' t'" by blast
    moreover from False Cons.prems(1) have "champ \<notin> seen_champions t" by (simp add: lane_sim_def)
    ultimately show ?thesis using k by (auto simp: Let_def)
  qed
qed

lemma lane_loop_fuel_sim:
  "lane_sim s t \<Longrightarrow> lane_loop_fuel n flag pef schema page i k s = Some (Inr s') \<Longrightarrow>
   \<exists>t'. lane_loop_fuel n flag pef schema page i k t = Some (Inr t') \<and> lane_sim s' t'"
proof (induction n arbitrary: k s t)
  case 0
  then show ?case by simp
next
  case (Suc n)
  from Suc.prems(2) have c: "\<not> scroll_containers page \<le> i" by (auto split: if_splits)
  from Suc.prems(2) obtain s1 where
    s1: "parse_cards flag pef schema (cards (lane_view page i k)) s = Inr s1"
    by (auto split: sum.splits if_splits)
  then obtain t1 where t1: "parse_cards flag pef schema (cards (lane_view page i k)) t = Inr t1"
    and sim1: "lane_sim s1 t1"
    using parse_cards_sim[OF Suc.prems(1)] by blast
  show ?case
  proof (cases "is_exhausted (lane_view page i k)")
    case True
    with Suc.prems(2) s1 c have "s' = s1" by simp
    with True t1 sim1 c show ?thesis by simp
  next
    case False
    with Suc.prems(2) s1 c have "lane_loop_fuel n flag pef schema page i (Suc k) s1 = Some (Inr s')"
      by simp
    from Suc.IH[OF sim1 this] False t1 c show ?thesis by simp
  qed
qed

lemma same_but_champion_trans:
  "same_but_champion f g \<Longrightarrow> same_but_champion g h \<Longrightarrow> same_but_champion f h"
  by (simp add: same_but_champion_def)

lemma lane_inv_init:
  "lane_inv flag pef schema cf \<lparr>seen_champions = {}, counters = [], counter_fields = cf\<rparr> []"
  by (simp add: lane_inv_def same_but_champion_refl)

lemma lane_loop_inv:
  assumes "lane_loop flag pef schema page i k
             \<lparr>seen_champions = {}, counters = [], counter_fields = cf\<rparr> = Some (Inr st)"
  shows "\<exists>cands. lane_inv flag pef schema cf st cands"
proof -
  from assms obtain n where
    "lane_loop_fuel n flag pef schema page i k
       \<lparr>seen_champions = {}, counters = [], counter_fields = cf\<rparr> = Some (Inr st)"
    using lane_loop_fuel_complete by blast
  then show ?thesis using lane_inv_init by (rule lane_loop_fuel_inv)
qed

lemma lane_loop_sim:
  assumes "lane_sim s t" and "lane_loop flag pef schema page i k s = Some (Inr s')"
  shows "\<exists>t'. lane_loop flag pef schema page i k t = Some (Inr t') \<and> lane_sim s' t'"
proof -
  from assms(2) obtain n where "lane_loop_fuel n flag pef schema page i k s = Some (Inr s')"
    using lane_loop_fuel_complete by blast
  from lane_loop_fuel_sim[OF assms(1) this] show ?thesis
    using lane_loop_fuel_sound by blast
qed

lemma lane_sim_init:
  "same_but_champion f g \<Longrightarrow>
   lane_sim \<lparr>seen_champions = {}, counters = [], counter_fields = f\<rparr>
            \<lparr>seen_champions = {}, counters = [], counter_fields = g\<rparr>"
  by (simp add: lane_sim_def)

lemma lanes_loop_fields:
  "lanes_loop flag pef schema page is cf acc = Some (Inr (d, cf')) \<Longrightarrow> same_but_champion cf cf'"
proof (induction "is" arbitrary: cf acc)
  case Nil
  then show ?case by (simp add: same_but_champion_refl)
next
  case (Cons i "is")
  from Cons.prems obtain st lane where
    st: "lane_loop flag pef schema page i 0
           \<lparr>seen_champions = {}, counters = [], counter_fields = cf\<rparr> = Some (Inr st)"
    and rest: "lanes_loop flag pef schema page is (counter_fields st)
           (acc @ [(lane, counters st)]) = Some (Inr (d, cf'))"
    by (auto split: option.splits sum.splits)
  from lane_loop_inv[OF st] have "same_but_champion cf (counter_fields st)"
    by (auto simp: lane_inv_def)
  moreover from rest have "same_but_champion (counter_fields st) cf'" by (rule Cons.IH)
  ultimately show ?case by (rule same_but_champion_trans)
qed

lemma lanes_loop_sim:
  "same_but_champion f g \<Longrightarrow>
   lanes_loop flag pef schema page is f acc = Some (Inr (d, f')) \<Longrightarrow>
   \<exists>g'. lanes_loop flag pef schema page is g acc = Some (Inr (d, g'))"
proof (induction "is" arbitrary: f g acc)
  case Nil
  then show ?case by simp
next
  case (Cons i "is")
  from Cons.prems(2) obtain s lane where
    lane: "py_index (positions page) i = Inr lane"
    and s: "lane_loop flag pef schema page i 0
           \<lparr>seen_champions = {}, counters = [], counter_fields = f\<rparr> = Some (Inr s)"
    and rest: "lanes_loop flag pef schema page is (counter_fields s)
           (acc @ [(lane, counters s)]) = Some (Inr (d, f'))"
    by (auto split: option.splits sum.splits)
  from lane_loop_sim[OF lane_sim_init[OF Cons.prems(1)] s] obtain t where
    t: "lane_loop flag pef schema page i 0
           \<lparr>seen_champions = {}, counters = [], counter_fields = g\<rparr> = Some (Inr t)"
    and sim: "lane_sim s t" by blast
  from sim have "same_but_champion (counter_fields s) (counter_fields t)"
    and eq: "counters s = counters t" by (simp_all add: lane_sim_def)
  from Cons.IH[OF this(1) rest] obtain g' where
    "lanes_loop flag pef schema page is (counter_fields t)
           (acc @ [(lane, counters s)]) = Some (Inr (d, g'))" by blast
  with t eq lane show ?case by simp
qed

text \<open>
  C4. Within a lane each identity key gives one record: when the loop of a lane
  returns, its result sequence is the image, under the mapper, of a list of candidates in
  which no key occurs twice (the keys are exactly the seen ones), and a card whose key is
  already seen is skipped. Run again over the same page, with the field table as the first
  run left it, the lane returns the same sequence, and so does the whole section.
\<close>

theorem lane_output_without_duplicates:
  "(lane_loop flag pef schema page i 0
      \<lparr>seen_champions = {}, counters = [], counter_fields = cf\<rparr> = Some (Inr st) \<longrightarrow>
    (\<exists>cands. distinct (map fst cands) \<and> set (map fst cands) = seen_champions st \<and>
       (\<forall>(champ, c) \<in> set cands. card_key flag c = Inr champ) \<and>
       counters st =
         map (\<lambda>(champ, c). fst (pef c schema (AList.update ''champion'' (champion_field champ) cf)))
           cands) \<and>
    (\<exists>st2. lane_loop flag pef schema page i 0
       \<lparr>seen_champions = {}, counters = [], counter_fields = counter_fields st\<rparr> = Some (Inr st2) \<and>
       counters st2 = counters st)) \<and>
   (card_key flag c = Inr champ \<and> champ \<in> seen_champions s \<longrightarrow>
    parse_cards flag pef schema (c # rest) s = parse_cards flag pef schema rest s) \<and>
   (parse_common_section flag cf pef schema page = Some (Inr (common_data, cf')) \<longrightarrow>
    (\<exists>cf''. parse_common_section flag cf' pef schema page = Some (Inr (common_data, cf''))))"
proof (intro conjI impI)
  assume run: "lane_loop flag pef schema page i 0
      \<lparr>seen_champions = {}, counters = [], counter_fields = cf\<rparr> = Some (Inr st)"
  from lane_loop_inv[OF run] obtain cands where inv: "lane_inv flag pef schema cf st cands" ..
  then show "\<exists>cands. distinct (map fst cands) \<and> set (map fst cands) = seen_champions st \<and>
       (\<forall>(champ, c) \<in> set cands. card_key flag c = Inr champ) \<and>
       counters st =
         map (\<lambda>(champ, c). fst (pef c schema (AList.update ''champion'' (champion_field champ) cf)))
           cands"
    unfolding lane_inv_def by blast
  from inv have "same_but_champion cf (counter_fields st)" by (simp add: lane_inv_def)
  from lane_loop_sim[OF lane_sim_init[OF this] run]
  show "\<exists>st2. lane_loop flag pef schema page i 0
       \<lparr>seen_champions = {}, counters = [], counter_fields = counter_fields st\<rparr> = Some (Inr st2) \<and>
       counters st2 = counters st"
    by (auto simp: lane_sim_def)
next
  assume "card_key flag c = Inr champ \<and> champ \<in> seen_champions s"
  then show "parse_cards flag pef schema (c # rest) s = parse_cards flag pef schema rest s"
    by simp
next
  assume run: "parse_common_section flag cf pef schema page = Some (Inr (common_data, cf'))"
  then have w: "wait_grab page = None"
    and l: "lanes_loop flag pef schema page [0..<length (positions page)] cf [] =
      Some (Inr (common_data, cf'))"
    by (auto simp: parse_common_section_def split: option.splits)
  from lanes_loop_sim[OF lanes_loop_fields[OF l] l] w
  show "\<exists>cf''. parse_common_section flag cf' pef schema page = Some (Inr (common_data, cf''))"
    by (simp add: parse_common_section_def)
qed

text \<open>The definitions that evaluate the example pages.\<close>

lemmas eval_defs = view_of_def is_exhausted_def Let_def
   card_key_def card_with_link_def card_without_anchor_def query_selector_def query_selector_all_def get_attribute_def link_part_def py_index_def capitalize_def ascii_upper_def ascii_lower_def
   parse_element_def field_value_def resolve_field_def unlocated_def champion_field_def of_text_def

theorem lane_output_without_duplicates_witness:
  "(\<exists>st. lane_loop ''matchup'' (parse_element None) (Inr :: (string \<times> pyval) list schema)
          overlap_page 0 0 \<lparr>seen_champions = {}, counters = [], counter_fields = []\<rparr>
        = Some (Inr st) \<and>
      counters st = [Some [(''champion'', VStr ''Darius'')], Some [(''champion'', VStr ''Garen'')],
                     Some [(''champion'', VStr ''Teemo'')]] \<and>
      (\<exists>st2. lane_loop ''matchup'' (parse_element None) Inr overlap_page 0 0
          \<lparr>seen_champions = {}, counters = [], counter_fields = counter_fields st\<rparr>
        = Some (Inr st2) \<and> counters st2 = counters st)) \<and>
   parse_cards ''matchup'' (parse_element None) (Inr :: (string \<times> pyval) list schema)
      [card_with_link (Some ''/lol/jax/vs/garen/build/'')]
      \<lparr>seen_champions = {Some ''Garen''}, counters = [], counter_fields = []\<rparr>
    = Inr \<lparr>seen_champions = {Some ''Garen''}, counters = [], counter_fields = []\<rparr> \<and>
   (\<exists>common_data cf' cf''.
      parse_common_section ''matchup'' [] (parse_element None)
        (Inr :: (string \<times> pyval) list schema) overlap_page = Some (Inr (common_data, cf')) \<and>
      common_data = [(Some ''top'', [Some [(''champion'', VStr ''Darius'')],
                       Some [(''champion'', VStr ''Garen'')], Some [(''champion'', VStr ''Teemo'')]])] \<and>
      parse_common_section ''matchup'' cf' (parse_element None) Inr overlap_page
        = Some (Inr (common_data, cf'')))"
proof -
  note inst = lane_output_without_duplicates[where flag = "''matchup''" and pef = "parse_element None"
      and schema = "Inr :: (string \<times> pyval) list schema" and page = overlap_page and i = 0
      and cf = "[]"]
  have "\<exists>st. lane_loop ''matchup'' (parse_element None) (Inr :: (string \<times> pyval) list schema)
          overlap_page 0 0 \<lparr>seen_champions = {}, counters = [], counter_fields = []\<rparr>
        = Some (Inr st) \<and>
      counters st = [Some [(''champion'', VStr ''Darius'')], Some [(''champion'', VStr ''Garen'')],
                     Some [(''champion'', VStr ''Teemo'')]]"
    by (simp add: overlap_page_def lane_loop.simps eval_defs)
  then obtain st where run: "lane_loop ''matchup'' (parse_element None) (Inr :: (string \<times> pyval) list schema)
          overlap_page 0 0 \<lparr>seen_champions = {}, counters = [], counter_fields = []\<rparr>
        = Some (Inr st)"
    and c: "counters st = [Some [(''champion'', VStr ''Darius'')], Some [(''champion'', VStr ''Garen'')],
                     Some [(''champion'', VStr ''Teemo'')]]" by blast
  from inst[where st = st, THEN conjunct1] run
  have again: "\<exists>st2. lane_loop ''matchup'' (parse_element None) Inr overlap_page 0 0
          \<lparr>seen_champions = {}, counters = [], counter_fields = counter_fields st\<rparr>
        = Some (Inr st2) \<and> counters st2 = counters st" by blast
  have "card_key ''matchup'' (card_with_link (Some ''/lol/jax/vs/garen/build/'')) = Inr (Some ''Garen'')"
    by (simp add: eval_defs)
  with inst[where c = "card_with_link (Some ''/lol/jax/vs/garen/build/'')" and champ = "Some ''Garen''"
      and s = "\<lparr>seen_champions = {Some ''Garen''}, counters = [], counter_fields = []\<rparr>"
      and rest = "[]", THEN conjunct2, THEN conjunct1]
  have skip: "parse_cards ''matchup'' (parse_element None) (Inr :: (string \<times> pyval) list schema)
      [card_with_link (Some ''/lol/jax/vs/garen/build/'')]
      \<lparr>seen_champions = {Some ''Garen''}, counters = [], counter_fields = []\<rparr>
    = Inr \<lparr>seen_champions = {Some ''Garen''}, counters = [], counter_fields = []\<rparr>"
    by simp
  have "\<exists>cf'. parse_common_section ''matchup'' [] (parse_element None)
        (Inr :: (string \<times> pyval) list schema) overlap_page
      = Some (Inr ([(Some ''top'', [Some [(''champion'', VStr ''Darius'')],
                       Some [(''champion'', VStr ''Garen'')], Some [(''champion'', VStr ''Teemo'')]])], cf'))"
    by (simp add: parse_common_section_def overlap_page_def lane_loop.simps eval_defs)
  then obtain cf' where first: "parse_common_section ''matchup'' [] (parse_element None)
        (Inr :: (string \<times> pyval) list schema) overlap_page
      = Some (Inr ([(Some ''top'', [Some [(''champion'', VStr ''Darius'')],
                       Some [(''champion'', VStr ''Garen'')], Some [(''champion'', VStr ''Teemo'')]])], cf'))"
    by blast
  with inst[where cf' = cf' and common_data = "[(Some ''top'', [Some [(''champion'', VStr ''Darius'')],
                       Some [(''champion'', VStr ''Garen'')], Some [(''champion'', VStr ''Teemo'')]])]",
      THEN conjunct2, THEN conjunct2]
  have "\<exists>cf''. parse_common_section ''matchup'' cf' (parse_element None)
        (Inr :: (string \<times> pyval) list schema) overlap_page
      = Some (Inr ([(Some ''top'', [Some [(''champion'', VStr ''Darius'')],
                       Some [(''champion'', VStr ''Garen'')], Some [(''champion'', VStr ''Teemo'')]])], cf''))"
    by blast
  with first have sect: "\<exists>common_data cf' cf''.
      parse_common_section ''matchup'' [] (parse_element None)
        (Inr :: (string \<times> pyval) list schema) overlap_page = Some (Inr (common_data, cf')) \<and>
      common_data = [(Some ''top'', [Some [(''champion'', VStr ''Darius'')],
                       Some [(''champion'', VStr ''Garen'')], Some [(''champion'', VStr ''Teemo'')]])] \<and>
      parse_common_section ''matchup'' cf' (parse_element None) Inr overlap_page
        = Some (Inr (common_data, cf''))" by blast
  from run c again skip sect show ?thesis by blast
qed

section \<open>Exit of the lane loop\<close>

text \<open>
  C5. The loop of a lane returns, that is, leaves through the \<^verbatim>\<open>break\<close> of line 147,
  if and only if some pass ends with
  \<^verbatim>\<open>scrollLeft + clientWidth >= scrollWidth - 5\<close>, the passes up to that one having
  raised nothing. The tolerance is the constant 5. (A pass that raises ends the loop
  with its fault, not through the check.)
\<close>

theorem lane_loop_returns_iff_exhausted:
  "(\<exists>st'. lane_loop flag pef schema page i 0 st = Some (Inr st')) \<longleftrightarrow>
   (\<exists>n. scrollLeft (lane_view page i n) + clientWidth (lane_view page i n)
           \<ge> scrollWidth (lane_view page i n) - 5 \<and>
        (\<forall>k\<le>n. pass_ok flag page i k))"
proof
  assume "\<exists>st'. lane_loop flag pef schema page i 0 st = Some (Inr st')"
  then obtain st' m where "lane_loop_fuel m flag pef schema page i 0 st = Some (Inr st')"
    using lane_loop_fuel_complete by blast
  from lane_loop_fuel_returns_exhausted[OF this]
  show "\<exists>n. scrollLeft (lane_view page i n) + clientWidth (lane_view page i n)
           \<ge> scrollWidth (lane_view page i n) - 5 \<and> (\<forall>k\<le>n. pass_ok flag page i k)"
    by (auto simp: is_exhausted_def)
next
  assume "\<exists>n. scrollLeft (lane_view page i n) + clientWidth (lane_view page i n)
           \<ge> scrollWidth (lane_view page i n) - 5 \<and> (\<forall>k\<le>n. pass_ok flag page i k)"
  then obtain n where "is_exhausted (lane_view page i n)"
    and "\<forall>j. 0 \<le> j \<and> j \<le> n \<longrightarrow> pass_ok flag page i j"
    by (auto simp: is_exhausted_def)
  then show "\<exists>st'. lane_loop flag pef schema page i 0 st = Some (Inr st')"
    using lane_loop_returns_when_exhausted[of page i n 0 flag pef schema st] by simp
qed

theorem lane_loop_returns_iff_exhausted_witness:
  "is_exhausted (lane_view overlap_page 0 1) \<and> pass_ok ''matchup'' overlap_page 0 0 \<and>
   pass_ok ''matchup'' overlap_page 0 1 \<and>
   (\<exists>st'. lane_loop ''matchup'' (parse_element None) Inr overlap_page 0 0
      \<lparr>seen_champions = {}, counters = [], counter_fields = []\<rparr>
      = Some (Inr (st' :: (string \<times> pyval) list lane_state)))"
proof -
  have ex: "is_exhausted (lane_view overlap_page 0 1)"
    by (simp add: overlap_page_def view_of_def is_exhausted_def)
  have ok: "pass_ok ''matchup'' overlap_page 0 k" for k
    by (simp add: pass_ok_def has_key_def overlap_page_def eval_defs)
  have "\<forall>k\<le>1. pass_ok ''matchup'' overlap_page 0 k" using ok by simp
  with ex lane_loop_returns_iff_exhausted[of "''matchup''" "parse_element None" Inr overlap_page 0
      "\<lparr>seen_champions = {}, counters = [], counter_fields = []\<rparr>"]
  have "\<exists>st'. lane_loop ''matchup'' (parse_element None) Inr overlap_page 0 0
      \<lparr>seen_champions = {}, counters = [], counter_fields = []\<rparr>
      = Some (Inr (st' :: (string \<times> pyval) list lane_state))"
    unfolding is_exhausted_def by blast
  with ex ok show ?thesis by blast
qed

text \<open>
  C1, as the code has it. The loop counts no passes and has no bound: on a lane whose
  check of line 147 never holds and whose passes raise nothing, it never returns, and no
  condition is reported. There is no \<^verbatim>\<open>StuckPagination\<close> in the code.
\<close>

theorem lane_loop_unbounded:
  "(\<forall>k. \<not> is_exhausted (lane_view page i k)) \<and> (\<forall>k. pass_ok flag page i k) \<longrightarrow>
   lane_loop flag pef schema page i 0 st = None"
proof (intro impI)
  assume never: "(\<forall>k. \<not> is_exhausted (lane_view page i k)) \<and> (\<forall>k. pass_ok flag page i k)"
  show "lane_loop flag pef schema page i 0 st = None"
  proof (rule ccontr)
    assume "lane_loop flag pef schema page i 0 st \<noteq> None"
    then obtain r where "lane_loop flag pef schema page i 0 st = Some r" by auto
    then obtain n where "lane_loop_fuel n flag pef schema page i 0 st = Some r"
      using lane_loop_fuel_complete by blast
    moreover from never have "lane_loop_fuel n flag pef schema page i 0 st = None"
      by (simp add: lane_loop_fuel_diverges)
    ultimately show False by simp
  qed
qed

lemma stuck_page_never_exhausted: "\<not> is_exhausted (lane_view stuck_page i k)"
  by (simp add: stuck_page_def view_of_def is_exhausted_def)

lemma stuck_page_pass_ok: "pass_ok flag stuck_page 0 k"
  by (simp add: stuck_page_def view_of_def pass_ok_def)

theorem lane_loop_unbounded_witness:
  "lane_loop ''matchup'' (parse_element None) (Inr :: (string \<times> pyval) list schema) stuck_page 0 0
     \<lparr>seen_champions = {}, counters = [], counter_fields = build_counter_fields\<rparr> = None"
  using lane_loop_unbounded[of stuck_page 0 "''matchup''"] stuck_page_never_exhausted stuck_page_pass_ok
  by blast

text \<open>
  C1 as stated fails on \<open>stuck_page\<close>: the section extractor does not return there,
  so it neither stops after a bounded number of passes nor reports anything.
\<close>

theorem stuck_pagination_counterexample:
  "parse_common_section ''matchup'' build_counter_fields (parse_element None)
     (Inr :: (string \<times> pyval) list schema) stuck_page = None"
proof -
  have "lane_loop ''matchup'' (parse_element None) (Inr :: (string \<times> pyval) list schema) stuck_page 0 0
     \<lparr>seen_champions = {}, counters = [], counter_fields = build_counter_fields\<rparr> = None"
    using lane_loop_diverges stuck_page_never_exhausted stuck_page_pass_ok by blast
  moreover have "wait_grab stuck_page = None" "positions stuck_page = [Some ''top'']"
    by (simp_all add: stuck_page_def)
  ultimately show ?thesis by (simp add: parse_common_section_def py_index_def)
qed

section \<open>A card without an identity key\<close>

lemma matchup_fault_build_None:
  "parse_common_section ''matchup'' build_counter_fields (parse_element (Some (document env)))
      counter_card (matchup_page env) = Some (Inl e) \<Longrightarrow>
   \<exists>ops. parse_champion_build counter_card objective_info champion_stats champion env = Some (None, ops)"
  by (auto simp: parse_champion_build_def build_body_def split: option.splits)

text \<open>
  C6, as the code has it. The first card of a pass whose identity key cannot be computed
  ends the loop of its lane with the fault of the key computation; in the first pass of
  the first lane this fault leaves \<^verbatim>\<open>parse_common_section\<close>, no lane gets a result, and
  \<^verbatim>\<open>parse_champion_build\<close>, whose matchup section raised, returns \<^verbatim>\<open>None\<close>.
\<close>

theorem keyless_candidate_aborts_section:
  "(i < scroll_containers page \<and> cards (lane_view page i k) = pre @ c # post \<and>
    list_all (has_key flag) pre \<and> card_key flag c = Inl e \<longrightarrow>
      lane_loop flag pef schema page i k st = Some (Inl e)) \<and>
   (wait_grab page = None \<and> positions page \<noteq> [] \<and> 0 < scroll_containers page \<and>
    cards (lane_view page 0 0) = pre @ c # post \<and>
    list_all (has_key flag) pre \<and> card_key flag c = Inl e \<longrightarrow>
      parse_common_section flag cf pef schema page = Some (Inl e)) \<and>
   (parse_common_section ''matchup'' build_counter_fields (parse_element (Some (document env)))
      counter_card (matchup_page env) = Some (Inl e) \<longrightarrow>
      (\<exists>ops. parse_champion_build counter_card objective_info champion_stats champion env
         = Some (None, ops)))"
proof (intro conjI impI)
  assume "i < scroll_containers page \<and> cards (lane_view page i k) = pre @ c # post \<and>
    list_all (has_key flag) pre \<and> card_key flag c = Inl e"
  then show "lane_loop flag pef schema page i k st = Some (Inl e)"
    using lane_loop_fault_at_pass by blast
next
  assume a: "wait_grab page = None \<and> positions page \<noteq> [] \<and> 0 < scroll_containers page \<and>
    cards (lane_view page 0 0) = pre @ c # post \<and>
    list_all (has_key flag) pre \<and> card_key flag c = Inl e"
  then have "lane_loop flag pef schema page 0 0
      \<lparr>seen_champions = {}, counters = [], counter_fields = cf\<rparr> = Some (Inl e)"
    using lane_loop_fault_at_pass by blast
  moreover from a have "[0..<length (positions page)] = 0 # [1..<length (positions page)]"
    by (simp add: upt_conv_Cons)
  ultimately show "parse_common_section flag cf pef schema page = Some (Inl e)"
    using a by (simp add: parse_common_section_def py_index_def)
next
  assume "parse_common_section ''matchup'' build_counter_fields (parse_element (Some (document env)))
      counter_card (matchup_page env) = Some (Inl e)"
  then show "\<exists>ops. parse_champion_build counter_card objective_info champion_stats champion env
         = Some (None, ops)"
    by (rule matchup_fault_build_None)
qed

theorem keyless_candidate_aborts_section_witness:
  "card_key ''matchup'' card_without_anchor = Inl AttributeError \<and>
   lane_loop ''matchup'' (parse_element None) (Inr :: (string \<times> pyval) list schema) keyless_page 0 0
     \<lparr>seen_champions = {}, counters = [], counter_fields = []\<rparr> = Some (Inl AttributeError) \<and>
   parse_common_section ''teammates'' build_counter_fields (parse_element None)
     (Inr :: (string \<times> pyval) list schema) keyless_page = Some (Inl AttributeError) \<and>
   (\<exists>ops. parse_champion_build (Inr :: (string \<times> pyval) list schema)
            (Inr :: string option \<times> string option \<times> string option \<times> string option \<Rightarrow> _)
            (\<lambda>c ob m t. Inr (c, ob, m, t)) ''Jax'' keyless_build_page = Some (None, ops))"
proof -
  note inst = keyless_candidate_aborts_section[where page = keyless_page and i = 0 and k = 0
      and pre = "[]" and c = card_without_anchor
      and post = "[card_with_link (Some ''/lol/jax/vs/garen/build/'')]" and e = AttributeError
      and schema = "Inr :: (string \<times> pyval) list schema" and pef = "parse_element None"
      and env = keyless_build_page and counter_card = "Inr :: (string \<times> pyval) list schema"
      and objective_info = "Inr :: string option \<times> string option \<times> string option \<times> string option \<Rightarrow> _"
      and champion_stats = "\<lambda>c ob m t. Inr (c, ob, m, t)" and champion = "''Jax''"]
  have key: "card_key flag card_without_anchor = Inl AttributeError" for flag
    by (simp add: card_key_def card_without_anchor_def query_selector_def query_selector_all_def)
  have page: "wait_grab keyless_page = None \<and> positions keyless_page \<noteq> [] \<and>
    0 < scroll_containers keyless_page \<and>
    cards (lane_view keyless_page 0 0) =
      [] @ card_without_anchor # [card_with_link (Some ''/lol/jax/vs/garen/build/'')] \<and>
    list_all (has_key flag) []" for flag
    by (simp add: keyless_page_def view_of_def)
  from inst[where flag = "''matchup''" and st = "\<lparr>seen_champions = {}, counters = [], counter_fields = []\<rparr>", THEN conjunct1]
    key page
  have lane: "lane_loop ''matchup'' (parse_element None) (Inr :: (string \<times> pyval) list schema) keyless_page 0 0
     \<lparr>seen_champions = {}, counters = [], counter_fields = []\<rparr> = Some (Inl AttributeError)"
    by blast
  from inst[where flag = "''teammates''" and cf = build_counter_fields, THEN conjunct2, THEN conjunct1]
    key page
  have sect: "parse_common_section ''teammates'' build_counter_fields (parse_element None)
     (Inr :: (string \<times> pyval) list schema) keyless_page = Some (Inl AttributeError)"
    by blast
  from inst[where flag = "''matchup''" and cf = build_counter_fields, THEN conjunct2, THEN conjunct1]
    key page
  have "parse_common_section ''matchup'' build_counter_fields (parse_element None)
     (Inr :: (string \<times> pyval) list schema) keyless_page = Some (Inl AttributeError)"
    by blast
  then have "parse_common_section ''matchup'' build_counter_fields
      (parse_element (Some (document keyless_build_page)))
      (Inr :: (string \<times> pyval) list schema) (matchup_page keyless_build_page) = Some (Inl AttributeError)"
    by (simp add: keyless_build_page_def parse_element_page[of "Some (document stale_build_page)" None])
  with inst[THEN conjunct2, THEN conjunct2]
  have "\<exists>ops. parse_champion_build (Inr :: (string \<times> pyval) list schema)
            (Inr :: string option \<times> string option \<times> string option \<times> string option \<Rightarrow> _)
            (\<lambda>c ob m t. Inr (c, ob, m, t)) ''Jax'' keyless_build_page = Some (None, ops)"
    by blast
  with key lane sect show ?thesis by blast
qed

text \<open>
  C6 as stated fails on \<open>keyless_page\<close>, whose lane shows a card without an anchor
  before a card with one: the section raises \<^verbatim>\<open>AttributeError\<close> instead of skipping the
  first card and returning the record of the second.
\<close>

theorem keyless_candidate_counterexample:
  "parse_common_section ''matchup'' [] (parse_element None)
     (Inr :: (string \<times> pyval) list schema) keyless_page = Some (Inl AttributeError)"
  by (simp add: parse_common_section_def keyless_page_def lane_loop.simps eval_defs)

section \<open>Records that the mapper discards\<close>

text \<open>
  C3. On \<open>single_card_page\<close>, with a field whose transform raises on the missing text,
  the mapper returns \<^verbatim>\<open>None\<close> for the only card, and line 145 appends it: the lane's
  sequence is \<^verbatim>\<open>[None]\<close>.
\<close>

theorem null_record_appended:
  "map_option (map_sum id fst)
     (parse_common_section ''matchup'' [(''delta_1'', (Some ''div.my-1'', Some ''text'', Some drop2))]
        (parse_element None) (Inr :: (string \<times> pyval) list schema) single_card_page)
   = Some (Inr [(Some ''top'', [None])])"
  by (simp add: parse_common_section_def single_card_page_def lane_loop.simps eval_defs
      drop2_def extract_text_def extract_text_body_def locate_def)

section \<open>Number extraction\<close>

lemma filter_dropWhile_disjoint:
  "(\<And>c. W c \<Longrightarrow> \<not> P c) \<Longrightarrow> filter P (dropWhile W xs) = filter P xs"
  by (induction xs) auto

lemma py_isspace_not_kept: "py_isspace c \<Longrightarrow> \<not> (py_isdigit c \<or> c \<in> set ''.-'')"
  by (auto simp: py_isspace_def py_isdigit_def is_decimal_def)

lemma cleaned_py_strip: "cleaned (py_strip t) = cleaned t"
proof -
  let ?P = "\<lambda>c. py_isdigit c \<or> c \<in> set ''.-''"
  have "filter ?P (rev (dropWhile py_isspace (rev (dropWhile py_isspace t))))
      = rev (filter ?P (dropWhile py_isspace (rev (dropWhile py_isspace t))))"
    by (simp only: rev_filter)
  also have "\<dots> = rev (filter ?P (rev (dropWhile py_isspace t)))"
    using filter_dropWhile_disjoint[of py_isspace ?P] py_isspace_not_kept by simp
  also have "\<dots> = filter ?P (dropWhile py_isspace t)"
    by (simp add: rev_filter)
  also have "\<dots> = filter ?P t"
    using filter_dropWhile_disjoint[of py_isspace ?P] py_isspace_not_kept by simp
  finally show ?thesis by (simp only: cleaned_def py_strip_def)
qed

lemma float_cleaned_Nil: "float_cleaned [] = Inl ValueError"
  by (simp add: float_cleaned_def)

lemma cleaned_Nil: "cleaned [] = []"
  by (simp add: cleaned_def)

text \<open>
  C9. Number extraction returns \<^verbatim>\<open>None\<close> when the selector's element or its text is
  absent; otherwise it returns the float read from the text reduced to its digits, points
  and minus signs, and \<^verbatim>\<open>None\<close> when that rest is empty or is no float
  (\<open>float_cleaned\<close> raises on both). It raises in no case.
\<close>

theorem extract_number_spec:
  "fst (extract_number page selector parent) =
     (case element_text page selector parent of
        None \<Rightarrow> None
      | Some t \<Rightarrow> (case float_cleaned (cleaned t) of Inl e \<Rightarrow> None | Inr x \<Rightarrow> Some x))"
proof (cases "locate page selector parent")
  case (Inl e)
  then show ?thesis
    by (simp add: extract_number_def extract_text_def extract_text_body_def element_text_def
        number_of_text_def)
next
  case (Inr found)
  show ?thesis
  proof (cases found)
    case None
    with Inr show ?thesis
      by (simp add: extract_number_def extract_text_def extract_text_body_def element_text_def
          number_of_text_def)
  next
    case (Some el)
    show ?thesis
    proof (cases "text_content el")
      case None
      with Inr Some show ?thesis
        by (simp add: extract_number_def extract_text_def extract_text_body_def element_text_def
            number_of_text_def)
    next
      case (Some t)
      have "cleaned (py_strip t) = [] \<Longrightarrow> float_cleaned (cleaned t) = Inl ValueError"
        by (simp add: cleaned_py_strip float_cleaned_Nil)
      moreover have "py_strip t = [] \<Longrightarrow> float_cleaned (cleaned t) = Inl ValueError"
        using cleaned_py_strip[of t] by (simp add: cleaned_Nil float_cleaned_Nil)
      ultimately show ?thesis
        using Inr \<open>found = Some el\<close> Some
        by (auto simp: extract_number_def extract_text_def extract_text_body_def element_text_def
            number_of_text_def cleaned_py_strip split: sum.splits)
    qed
  qed
qed

theorem extract_number_spec_witness:
  "fst (extract_number None ''span'' (Some percent_cell)) = Some (523 / 10)"
  using extract_number_spec[of None "''span''" "Some percent_cell"]
  by (simp add: percent_cell_def element_text_def locate_def query_selector_def
      query_selector_all_def float_cleaned_def cleaned_def py_isdigit_def is_decimal_def
      digits_nat_def digit_val_def)

section \<open>Properties of the field mapper\<close>

lemma parse_fields_fault:
  "(name, spec) \<in> set ftab \<Longrightarrow> fst (field_value page el spec) = Inl e \<Longrightarrow>
   \<exists>e'. fst (parse_fields page el ftab vals) = Inl e'"
proof (induction ftab arbitrary: vals)
  case Nil
  then show ?case by simp
next
  case (Cons f ftab)
  obtain n sp where f: "f = (n, sp)" by (cases f)
  show ?case
  proof (cases "fst (field_value page el sp)")
    case (Inl e1)
    then show ?thesis using f by (cases "field_value page el sp") auto
  next
    case (Inr v)
    with Cons.prems f have "(name, spec) \<in> set ftab" by auto
    from Cons.IH[OF this Cons.prems(2), of "AList.update n v vals"] Inr f show ?thesis
      by (cases "field_value page el sp") (auto split: prod.splits)
  qed
qed

lemma update_keys_image: "fst ` set (AList.update k v al) = insert k (fst ` set al)"
  by (induction al) auto

lemma parse_fields_keys:
  "fst (parse_fields page el ftab vals) = Inr vals' \<Longrightarrow>
   fst ` set vals' = fst ` set vals \<union> fst ` set ftab"
proof (induction ftab arbitrary: vals)
  case Nil
  then show ?case by simp
next
  case (Cons f ftab)
  obtain n sp where f: "f = (n, sp)" by (cases f)
  from Cons.prems f obtain v l where fv: "field_value page el sp = (Inr v, l)"
    by (cases "field_value page el sp") (auto split: sum.splits)
  with Cons.prems f have "fst (parse_fields page el ftab (AList.update n v vals)) = Inr vals'"
    by (auto split: prod.splits)
  from Cons.IH[OF this] show ?case using f
    by (simp add: update_keys_image)
qed

text \<open>
  C7. The field mapper raises nothing; its body can. A fault in the value of any field
  of the table, such as a transform that raises on the raw value, makes the mapper
  return \<^verbatim>\<open>None\<close> and log a warning; a record that is returned was built from a value
  for every field of the table; and after a card whose record was discarded the loop
  over the cards of a lane goes on with the cards that follow.
\<close>

theorem parse_element_discards_faulty_record:
  "((name, spec) \<in> set ftab \<and> fst (field_value page el spec) = Inl e \<longrightarrow>
      fst (parse_element page el schema_cls ftab) = None \<and>
      (\<exists>e'. Log_warning ''Failed to parse element'' e' \<in> set (snd (parse_element page el schema_cls ftab)))) \<and>
   (fst (resolve_field page el (selector, value_type, Some t)) = Inr v \<and> t v = Inl e \<longrightarrow>
      fst (field_value page el (selector, value_type, Some t)) = Inl e) \<and>
   (fst (parse_element page el schema_cls ftab) = Some r \<longrightarrow>
      (\<exists>vals. schema_cls vals = Inr r \<and> fst ` set vals = fst ` set ftab)) \<and>
   (card_key flag c = Inr champ \<and> champ \<notin> seen_champions st \<and>
    fst (parse_element page c schema
           (AList.update ''champion'' (champion_field champ) (counter_fields st))) = None \<longrightarrow>
      parse_cards flag (parse_element page) schema (c # rest) st =
      parse_cards flag (parse_element page) schema rest
        \<lparr>seen_champions = insert champ (seen_champions st),
         counters = counters st @ [None],
         counter_fields = AList.update ''champion'' (champion_field champ) (counter_fields st)\<rparr>)"
proof (intro conjI impI)
  assume "(name, spec) \<in> set ftab \<and> fst (field_value page el spec) = Inl e"
  then obtain e' where "fst (parse_fields page el ftab []) = Inl e'"
    using parse_fields_fault by blast
  then show "fst (parse_element page el schema_cls ftab) = None"
    and "\<exists>e'. Log_warning ''Failed to parse element'' e' \<in> set (snd (parse_element page el schema_cls ftab))"
    by (cases "parse_fields page el ftab []"; auto simp: parse_element_def)+
next
  assume "fst (resolve_field page el (selector, value_type, Some t)) = Inr v \<and> t v = Inl e"
  then show "fst (field_value page el (selector, value_type, Some t)) = Inl e"
    by (cases "resolve_field page el (selector, value_type, Some t)") (auto simp: field_value_def)
next
  assume a: "fst (parse_element page el schema_cls ftab) = Some r"
  then obtain vals l where pf: "parse_fields page el ftab [] = (Inr vals, l)"
    and sc: "schema_cls vals = Inr r"
    by (cases "parse_fields page el ftab []")
       (auto simp: parse_element_def split: sum.splits)
  from pf have "fst (parse_fields page el ftab []) = Inr vals" by simp
  from parse_fields_keys[OF this] sc
  show "\<exists>vals. schema_cls vals = Inr r \<and> fst ` set vals = fst ` set ftab" by auto
next
  assume "card_key flag c = Inr champ \<and> champ \<notin> seen_champions st \<and>
    fst (parse_element page c schema
           (AList.update ''champion'' (champion_field champ) (counter_fields st))) = None"
  then show "parse_cards flag (parse_element page) schema (c # rest) st =
      parse_cards flag (parse_element page) schema rest
        \<lparr>seen_champions = insert champ (seen_champions st),
         counters = counters st @ [None],
         counter_fields = AList.update ''champion'' (champion_field champ) (counter_fields st)\<rparr>"
    by (simp add: Let_def)
qed

theorem parse_element_discards_faulty_record_witness:
  "fst (field_value None percent_cell (Some ''span'', Some ''text'', Some bump)) = Inl TypeError \<and>
   fst (parse_element None percent_cell (Inr :: (string \<times> pyval) list schema)
          [(''name'', (Some ''b'', Some ''text'', None)),
           (''win'', (Some ''span'', Some ''text'', Some bump))]) = None \<and>
   (\<exists>e'. Log_warning ''Failed to parse element'' e' \<in> set (snd
      (parse_element None percent_cell (Inr :: (string \<times> pyval) list schema)
          [(''name'', (Some ''b'', Some ''text'', None)),
           (''win'', (Some ''span'', Some ''text'', Some bump))]))) \<and>
   fst (parse_element None percent_cell (Inr :: (string \<times> pyval) list schema)
          [(''name'', (Some ''b'', Some ''text'', None)),
           (''win'', (Some ''span'', Some ''number'', Some bump))])
     = Some [(''name'', VNone), (''win'', VNum (533 / 10))] \<and>
   (\<exists>vals. (Inr :: (string \<times> pyval) list schema) vals = Inr [(''name'', VNone), (''win'', VNum (533 / 10))] \<and>
      fst ` set vals = {''name'', ''win''}) \<and>
   parse_cards ''matchup'' (parse_element None) (Inr :: (string \<times> pyval) list schema)
      [card_with_link (Some ''/lol/jax/vs/darius/build/''),
       card_with_link (Some ''/lol/jax/vs/garen/build/'')]
      \<lparr>seen_champions = {}, counters = [],
       counter_fields = [(''delta_1'', (Some ''div.my-1'', Some ''text'', Some drop2))]\<rparr>
   = Inr \<lparr>seen_champions = {Some ''Garen'', Some ''Darius''}, counters = [None, None],
       counter_fields = [(''delta_1'', (Some ''div.my-1'', Some ''text'', Some drop2)),
                         (''champion'', champion_field (Some ''Garen''))]\<rparr>"
proof -
  let ?bad = "[(''name'', (Some ''b'', Some ''text'', None)),
        (''win'', (Some ''span'', Some ''text'', Some bump))]"
  let ?good = "[(''name'', (Some ''b'', Some ''text'', None)),
        (''win'', (Some ''span'', Some ''number'', Some bump))]"
  let ?cf = "[(''delta_1'', (Some ''div.my-1'', Some ''text'', Some drop2))]"
  note inst = parse_element_discards_faulty_record[where page = None
      and schema_cls = "Inr :: (string \<times> pyval) list schema"
      and schema = "Inr :: (string \<times> pyval) list schema"]
  have raw: "fst (resolve_field None percent_cell (Some ''span'', Some ''text'', Some bump)) = Inr (VStr ''52.3%'')"
    by (simp add: resolve_field_def extract_text_def extract_text_body_def
        locate_def query_selector_def query_selector_all_def percent_cell_def of_text_def
        py_strip_def py_isspace_def)
  have "bump (VStr ''52.3%'') = Inl TypeError" by (simp add: bump_def)
  with raw inst[where el = percent_cell and selector = "Some ''span''" and value_type = "Some ''text''"
      and t = bump and v = "VStr ''52.3%''" and e = TypeError, THEN conjunct2, THEN conjunct1]
  have f: "fst (field_value None percent_cell (Some ''span'', Some ''text'', Some bump)) = Inl TypeError"
    by blast
  with inst[where name = "''win''" and spec = "(Some ''span'', Some ''text'', Some bump)"
      and ftab = ?bad and el = percent_cell and e = TypeError, THEN conjunct1]
  have discard: "fst (parse_element None percent_cell (Inr :: (string \<times> pyval) list schema) ?bad) = None \<and>
   (\<exists>e'. Log_warning ''Failed to parse element'' e' \<in> set (snd
      (parse_element None percent_cell (Inr :: (string \<times> pyval) list schema) ?bad)))"
    by simp
  have good: "fst (parse_element None percent_cell (Inr :: (string \<times> pyval) list schema) ?good)
     = Some [(''name'', VNone), (''win'', VNum (533 / 10))]"
    by (simp add: parse_element_def field_value_def resolve_field_def extract_text_def
        extract_text_body_def extract_number_def number_of_text_def locate_def query_selector_def
        query_selector_all_def percent_cell_def of_text_def of_number_def py_strip_def py_isspace_def
        float_cleaned_def cleaned_def py_isdigit_def is_decimal_def digits_nat_def digit_val_def
        bump_def)
  with inst[where el = percent_cell and ftab = ?good and r = "[(''name'', VNone), (''win'', VNum (533 / 10))]",
      THEN conjunct2, THEN conjunct2, THEN conjunct1]
  have whole: "\<exists>vals. (Inr :: (string \<times> pyval) list schema) vals = Inr [(''name'', VNone), (''win'', VNum (533 / 10))] \<and>
      fst ` set vals = {''name'', ''win''}"
    by simp
  let ?d = "card_with_link (Some ''/lol/jax/vs/darius/build/'')"
  let ?g = "card_with_link (Some ''/lol/jax/vs/garen/build/'')"
  have kd: "card_key ''matchup'' ?d = Inr (Some ''Darius'')" by (simp add: eval_defs)
  have nd: "fst (parse_element None ?d (Inr :: (string \<times> pyval) list schema)
      (AList.update ''champion'' (champion_field (Some ''Darius'')) ?cf)) = None"
    by (simp add: eval_defs drop2_def extract_text_def extract_text_body_def locate_def)
  from inst[where flag = "''matchup''" and c = ?d and champ = "Some ''Darius''"
      and st = "\<lparr>seen_champions = {}, counters = [], counter_fields = ?cf\<rparr>"
      and rest = "[?g]", THEN conjunct2, THEN conjunct2, THEN conjunct2] kd nd
  have "parse_cards ''matchup'' (parse_element None) (Inr :: (string \<times> pyval) list schema) [?d, ?g]
      \<lparr>seen_champions = {}, counters = [], counter_fields = ?cf\<rparr>
    = parse_cards ''matchup'' (parse_element None) Inr [?g]
        \<lparr>seen_champions = {Some ''Darius''}, counters = [None],
         counter_fields = AList.update ''champion'' (champion_field (Some ''Darius'')) ?cf\<rparr>"
    by simp
  also have "\<dots> = Inr \<lparr>seen_champions = {Some ''Garen'', Some ''Darius''}, counters = [None, None],
       counter_fields = [(''delta_1'', (Some ''div.my-1'', Some ''text'', Some drop2)),
                         (''champion'', champion_field (Some ''Garen''))]\<rparr>"
    by (simp add: eval_defs drop2_def extract_text_def extract_text_body_def locate_def)
  finally have cont: "parse_cards ''matchup'' (parse_element None) (Inr :: (string \<times> pyval) list schema) [?d, ?g]
      \<lparr>seen_champions = {}, counters = [], counter_fields = ?cf\<rparr>
    = Inr \<lparr>seen_champions = {Some ''Garen'', Some ''Darius''}, counters = [None, None],
       counter_fields = [(''delta_1'', (Some ''div.my-1'', Some ''text'', Some drop2)),
                         (''champion'', champion_field (Some ''Garen''))]\<rparr>" .
  from f discard good whole cont show ?thesis by blast
qed

text \<open>
  C2. For a field with a null locator and the transform \<open>bump\<close>, the mapper stores
  \<open>bump\<close> applied twice, the number 2, where \<open>bump\<close> applied once to \<^verbatim>\<open>None\<close> is 1:
  line 30 applies the transform and line 35 applies it again.
\<close>

theorem null_locator_transform_applied_twice:
  "fst (parse_element page el (Inr :: (string \<times> pyval) list schema)
          [(''level'', (None, None, Some bump))]) = Some [(''level'', VNum 2)] \<and>
   bump VNone = Inr (VNum 1)"
  by (simp add: parse_element_def field_value_def resolve_field_def unlocated_def bump_def)

lemma field_value_null_locator:
  "fst (field_value page el (None, value_type, Some t)) =
     (case t VNone of Inl e \<Rightarrow> Inl e | Inr v \<Rightarrow> t v)"
  by (simp add: field_value_def resolve_field_def unlocated_def split: sum.splits)

section \<open>Change barrier\<close>

lemma auto_scroll_no_section: "Section flag \<notin> set (auto_scroll n)"
  by (induction n) (auto simp: auto_scroll_def)

lemma wait_for_function_unchanged:
  "\<forall>el \<in> set polls. \<exists>t. el = Some t \<and> js_trim t = old \<Longrightarrow>
   wait_for_function (changed old) polls = Inl TimeoutError"
  by (auto simp: wait_for_function_def changed_def list_ex_iff)

lemma build_barrier_timeout:
  "anchor env = Some a \<Longrightarrow>
   wait_for_function (changed (old_check_arg (text_content a))) (anchor_polls env) = Inl TimeoutError \<Longrightarrow>
   build_barrier cc oi cs champion env cf cm = Some (r, ops) \<Longrightarrow>
   (\<exists>e. r = Inl e) \<and> Section ''teammates'' \<notin> set ops"
  by (auto simp: build_barrier_def Let_def split: option.splits)

text \<open>
  When every check made before the timeout finds the element with a text that, trimmed by
  the page, equals the snapshot passed to the wait, the wait raises \<^verbatim>\<open>TimeoutError\<close>;
  and when the wait of \<^verbatim>\<open>parse_champion_build\<close> raises it, the call returns \<^verbatim>\<open>None\<close>
  and the teammates section is not among the operations it performed.
\<close>

lemma barrier_timeout_skips_teammates:
  "((\<forall>el \<in> set polls. \<exists>t. el = Some t \<and> js_trim t = old) \<longrightarrow>
      wait_for_function (changed old) polls = Inl TimeoutError) \<and>
   (anchor env = Some a \<and>
    wait_for_function (changed (old_check_arg (text_content a))) (anchor_polls env) = Inl TimeoutError \<and>
    parse_champion_build counter_card objective_info champion_stats champion env = Some (r, ops) \<longrightarrow>
      r = None \<and> Section ''teammates'' \<notin> set ops)"
proof (intro conjI impI)
  assume "\<forall>el \<in> set polls. \<exists>t. el = Some t \<and> js_trim t = old"
  then show "wait_for_function (changed old) polls = Inl TimeoutError"
    by (rule wait_for_function_unchanged)
next
  assume a: "anchor env = Some a \<and>
    wait_for_function (changed (old_check_arg (text_content a))) (anchor_polls env) = Inl TimeoutError \<and>
    parse_champion_build counter_card objective_info champion_stats champion env = Some (r, ops)"
  then obtain rb opsb where body: "build_body counter_card objective_info champion_stats champion env = Some (rb, opsb)"
    and r: "r = (case rb of Inl e \<Rightarrow> None | Inr stats \<Rightarrow> Some stats)"
    and ops: "ops = opsb @ (if new_page env = None then [Close_page] else [])"
    by (auto simp: parse_champion_build_def split: option.splits)
  from body a have "(\<exists>e. rb = Inl e) \<and> Section ''teammates'' \<notin> set opsb"
    by (auto simp: build_body_def auto_scroll_no_section split: option.splits sum.splits
        dest!: build_barrier_timeout[rotated 2])
  with r ops show "r = None" and "Section ''teammates'' \<notin> set ops" by auto
qed

text \<open>
  On \<open>stale_build_page\<close>, whose anchor reads \<^verbatim>\<open>10W 5L\<close> throughout, the wait raises and the
  call returns \<^verbatim>\<open>None\<close> without the teammates section.
\<close>

lemma stale_build_page_times_out:
  "wait_for_function (changed ''10W 5L'') (anchor_polls stale_build_page) = Inl TimeoutError \<and>
   (\<exists>ops. parse_champion_build (Inr :: (string \<times> pyval) list schema)
            (Inr :: string option \<times> string option \<times> string option \<times> string option \<Rightarrow> _)
            (\<lambda>c ob m t. Inr (c, ob, m, t)) ''Jax'' stale_build_page = Some (None, ops) \<and>
          Section ''teammates'' \<notin> set ops)"
proof -
  note inst = barrier_timeout_skips_teammates[where env = stale_build_page
      and a = "Element [] (Some ''10W 5L'') []"
      and counter_card = "Inr :: (string \<times> pyval) list schema"
      and objective_info = "Inr :: string option \<times> string option \<times> string option \<times> string option \<Rightarrow> _"
      and champion_stats = "\<lambda>c ob m t. Inr (c, ob, m, t)" and champion = "''Jax''"]
  have polls: "\<forall>el \<in> set (anchor_polls stale_build_page). \<exists>t. el = Some t \<and> js_trim t = ''10W 5L''"
    by (simp add: stale_build_page_def js_trim_def js_isspace_def)
  with inst[where old = "''10W 5L''" and polls = "anchor_polls stale_build_page", THEN conjunct1]
  have timeout:
    "wait_for_function (changed ''10W 5L'') (anchor_polls stale_build_page) = Inl TimeoutError"
    by blast
  have arg: "old_check_arg (text_content (Element [] (Some ''10W 5L'') [])) = ''10W 5L''"
    by (simp add: old_check_arg_def py_strip_def py_isspace_def)
  have a: "anchor stale_build_page = Some (Element [] (Some ''10W 5L'') [])"
    by (simp add: stale_build_page_def)
  obtain r ops where run: "parse_champion_build (Inr :: (string \<times> pyval) list schema)
            (Inr :: string option \<times> string option \<times> string option \<times> string option \<Rightarrow> _)
            (\<lambda>c ob m t. Inr (c, ob, m, t)) ''Jax'' stale_build_page = Some (r, ops)"
    using timeout arg
    by (simp add: parse_champion_build_def build_body_def build_barrier_def stale_build_page_def
        parse_common_section_def overlap_page_def lane_loop.simps eval_defs build_counter_fields_def
        extract_text_def extract_text_body_def locate_def)
  with inst[where r = r and ops = ops, THEN conjunct2] a timeout arg
  have "r = None \<and> Section ''teammates'' \<notin> set ops" by simp
  with run timeout show ?thesis by blast
qed

text \<open>
  C8. On \<open>unchanged_build_page\<close> the anchor reads U+0085 followed by \<^verbatim>\<open>10W 5L\<close> before the
  click and at every check after it, so the text at the locator still equals the snapshot
  of line 172. Line 183 strips the snapshot with \<^verbatim>\<open>str.strip\<close>, which removes U+0085;
  the predicate trims the text with \<^verbatim>\<open>trim\<close>, which keeps it. The two differ at the
  first check: the wait returns, no \<^verbatim>\<open>TimeoutError\<close> is raised, the teammates section is
  performed and the call returns a result.
\<close>

theorem change_barrier_passes_on_unchanged_text:
  "anchor unchanged_build_page = Some (Element [] (Some (CHR 0x85 # ''10W 5L'')) []) \<and>
   anchor_polls unchanged_build_page =
     [Some (CHR 0x85 # ''10W 5L''), Some (CHR 0x85 # ''10W 5L'')] \<and>
   old_check_arg (Some (CHR 0x85 # ''10W 5L'')) = ''10W 5L'' \<and>
   js_trim (CHR 0x85 # ''10W 5L'') = CHR 0x85 # ''10W 5L'' \<and>
   wait_for_function (changed (old_check_arg (Some (CHR 0x85 # ''10W 5L''))))
     (anchor_polls unchanged_build_page) = Inr () \<and>
   (\<exists>stats ops. parse_champion_build (Inr :: (string \<times> pyval) list schema)
            (Inr :: string option \<times> string option \<times> string option \<times> string option \<Rightarrow> _)
            (\<lambda>c ob m t. Inr (c, ob, m, t)) ''Jax'' unchanged_build_page = Some (Some stats, ops) \<and>
          Section ''teammates'' \<in> set ops)"
proof -
  have arg: "old_check_arg (Some (CHR 0x85 # ''10W 5L'')) = ''10W 5L''"
    by (simp add: old_check_arg_def py_strip_def py_isspace_def)
  have trim: "js_trim (CHR 0x85 # ''10W 5L'') = CHR 0x85 # ''10W 5L''"
    by (simp add: js_trim_def js_isspace_def)
  have passes: "wait_for_function (changed (old_check_arg (Some (CHR 0x85 # ''10W 5L''))))
     (anchor_polls unchanged_build_page) = Inr ()"
    by (simp add: arg trim wait_for_function_def changed_def unchanged_build_page_def
        stale_build_page_def)
  have run: "\<exists>stats ops. parse_champion_build (Inr :: (string \<times> pyval) list schema)
            (Inr :: string option \<times> string option \<times> string option \<times> string option \<Rightarrow> _)
            (\<lambda>c ob m t. Inr (c, ob, m, t)) ''Jax'' unchanged_build_page = Some (Some stats, ops) \<and>
          Section ''teammates'' \<in> set ops"
    by (simp add: arg trim wait_for_function_def changed_def
        parse_champion_build_def build_body_def build_barrier_def build_tail_def
        unchanged_build_page_def stale_build_page_def
        parse_common_section_def overlap_page_def lane_loop.simps eval_defs build_counter_fields_def
        extract_text_def extract_text_body_def locate_def)
  show ?thesis
    using arg trim passes run
    by (simp add: unchanged_build_page_def stale_build_page_def)
qed

end
